theory Spec2Isabelle
  imports Main
begin

section \<open>Data model\<close>

text \<open>
  \<^verbatim>\<open>app/models/subscription.py\<close>: the status enumeration has four values.
\<close>

datatype SubscriptionStatus = ACTIVE | INACTIVE | CANCELLED | EXPIRED

text \<open>
  A \<^verbatim>\<open>datetime\<close> is an instant, counted in microseconds from 1970-01-01 00:00:00 UTC.
  Python's \<^verbatim>\<open>datetime\<close> covers the years 1 to 9999: \<open>datetime_min\<close> is
  0001-01-01 00:00:00 and \<open>datetime_max\<close> is 9999-12-31 23:59:59.999999. Every
  \<^verbatim>\<open>datetime.utcnow()\<close> of the source is a parameter \<open>now\<close> of the operation that reads
  the clock. Python tells naive from timezone-aware \<^verbatim>\<open>datetime\<close> objects; the one
  expression of the service that combines the two kinds is modelled where it occurs, in
  \<open>handle_plan_change\<close> below.
\<close>

type_synonym datetime = int

definition datetime_min :: datetime where
  "datetime_min = - 62135596800000000"

definition datetime_max :: datetime where
  "datetime_max = 253402300799999999"

definition representable :: "datetime \<Rightarrow> bool" where
  "representable t \<longleftrightarrow> datetime_min \<le> t \<and> t \<le> datetime_max"

text \<open>
  A row of table \<^verbatim>\<open>subscriptions\<close>. Column \<^verbatim>\<open>id\<close> is \<open>sub_id\<close> here. Columns
  \<^verbatim>\<open>status\<close> and \<^verbatim>\<open>auto_renew\<close> are nullable, so they hold an option. The columns
  \<^verbatim>\<open>created_at\<close> and \<^verbatim>\<open>updated_at\<close> are filled in by the database and no operation
  below depends on them; they are left out.
\<close>

record Subscription =
  sub_id :: int
  user_id :: int
  plan_id :: int
  status :: "SubscriptionStatus option"
  start_date :: datetime
  end_date :: datetime
  auto_renew :: "bool option"

text \<open>
  A row of table \<^verbatim>\<open>plans\<close>, without its primary key (the table below is keyed by it)
  and without the descriptive columns. \<^verbatim>\<open>is_active\<close> is nullable.
\<close>

record Plan =
  duration_days :: int
  is_active :: "bool option"

text \<open>
  The database as the service sees it: the ids of the rows of \<^verbatim>\<open>users\<close>, table
  \<^verbatim>\<open>plans\<close> keyed by its primary key, the rows of \<^verbatim>\<open>subscriptions\<close> in insertion
  order, and the next value of the sequence behind \<^verbatim>\<open>subscriptions.id\<close>.

  The date columns are declared \<^verbatim>\<open>DateTime(timezone=True)\<close>. What a query returns for
  such a column is decided by the database and its driver, which are not part of the
  repository: \<open>tz_aware\<close> says whether the values come back as timezone-aware
  \<^verbatim>\<open>datetime\<close> objects. PostgreSQL, the database of \<^verbatim>\<open>app/config.py\<close> and of the test
  configuration, returns aware values for its \<^verbatim>\<open>TIMESTAMP WITH TIME ZONE\<close>.
\<close>

record Store =
  users :: "int set"
  plans :: "int \<rightharpoonup> Plan"
  subscriptions :: "Subscription list"
  next_id :: int
  tz_aware :: bool

text \<open>
  \<^verbatim>\<open>app/schemas/subscription.py\<close>. \<^verbatim>\<open>SubscriptionCreate\<close> has two required fields and
  an optional \<^verbatim>\<open>auto_renew\<close>. Every field of \<^verbatim>\<open>SubscriptionUpdate\<close> is optional, and
  \<^verbatim>\<open>model_dump(exclude_unset=True)\<close> keeps exactly the fields the request supplied,
  also those supplied as \<^verbatim>\<open>null\<close>: a field is \<open>Unset\<close>, or \<open>Given v\<close> with \<open>v\<close> possibly
  \<open>None\<close>.
\<close>

record SubscriptionCreate =
  c_user_id :: int
  c_plan_id :: int
  c_auto_renew :: "bool option"

datatype 'a field = Unset | Given 'a

record SubscriptionUpdate =
  upd_plan_id :: "int option field"
  upd_auto_renew :: "bool option field"
  upd_status :: "SubscriptionStatus option field"

text \<open>
  \<^verbatim>\<open>app/core/exceptions.py\<close>, the exceptions of the query layer and Python's own.
  \<^verbatim>\<open>NotFoundException\<close> and \<^verbatim>\<open>ConflictException\<close> are \<^verbatim>\<open>HTTPException\<close>s with a fixed
  status code; \<^verbatim>\<open>MultipleResultsFound\<close> and \<^verbatim>\<open>NoResultFound\<close> are raised by
  \<^verbatim>\<open>scalar_one_or_none\<close> and \<^verbatim>\<open>scalar_one\<close> and answered with 500 by the handler of
  \<^verbatim>\<open>app/main.py\<close>; a \<^verbatim>\<open>TypeError\<close> or an \<^verbatim>\<open>OverflowError\<close> has no handler and is
  answered with 500 as well.
\<close>

datatype error =
    NotFoundException string
  | ConflictException string
  | HTTPException nat string
  | MultipleResultsFound
  | NoResultFound
  | TypeError
  | OverflowError

fun status_code :: "error \<Rightarrow> nat" where
  "status_code (NotFoundException detail) = 404"
| "status_code (ConflictException detail) = 409"
| "status_code (HTTPException code detail) = code"
| "status_code MultipleResultsFound = 500"
| "status_code NoResultFound = 500"
| "status_code TypeError = 500"
| "status_code OverflowError = 500"

text \<open>
  Date arithmetic. \<^verbatim>\<open>timedelta(days=n)\<close> raises \<^verbatim>\<open>OverflowError\<close> when the magnitude of
  \<open>n\<close> exceeds 999999999, and is \<open>n\<close> days of 86400 seconds otherwise.
  \<^verbatim>\<open>datetime + timedelta\<close> raises \<^verbatim>\<open>OverflowError\<close> when the sum is not a
  representable \<^verbatim>\<open>datetime\<close>. \<open>add_days t n\<close> is \<^verbatim>\<open>t + timedelta(days=n)\<close>.
\<close>

definition timedelta :: "int \<Rightarrow> error + int" where
  "timedelta days =
     (if \<bar>days\<bar> > 999999999 then Inl OverflowError else Inr (days * 86400000000))"

definition datetime_add :: "datetime \<Rightarrow> int \<Rightarrow> error + datetime" where
  "datetime_add t delta =
     (if representable (t + delta) then Inr (t + delta) else Inl OverflowError)"

definition add_days :: "datetime \<Rightarrow> int \<Rightarrow> error + datetime" where
  "add_days t days =
     (case timedelta days of
        Inl e \<Rightarrow> Inl e
      | Inr delta \<Rightarrow> datetime_add t delta)"

section \<open>Queries\<close>

fun scalar_one_or_none :: "'a list \<Rightarrow> error + 'a option" where
  "scalar_one_or_none [] = Inr None"
| "scalar_one_or_none [r] = Inr (Some r)"
| "scalar_one_or_none (r # r' # rs) = Inl MultipleResultsFound"

fun scalar_one :: "'a option \<Rightarrow> error + 'a" where
  "scalar_one None = Inl NoResultFound"
| "scalar_one (Some r) = Inr r"

text \<open>
  \<^verbatim>\<open>select(Plan).where(and_(Plan.id == plan_id, Plan.is_active == True))\<close>. The id
  compared with may be \<^verbatim>\<open>None\<close> (an update that supplies \<^verbatim>\<open>plan_id: null\<close>), which
  no row matches. The primary key makes the result at most one row.
\<close>

fun select_active_plan :: "Store \<Rightarrow> int option \<Rightarrow> Plan option" where
  "select_active_plan db None = None"
| "select_active_plan db (Some pid) =
     (case plans db pid of
        None \<Rightarrow> None
      | Some plan \<Rightarrow> if is_active plan = Some True then Some plan else None)"

definition get_subscription_by_id :: "Store \<Rightarrow> int \<Rightarrow> error + Subscription option" where
  "get_subscription_by_id db subscription_id =
     scalar_one_or_none (filter (\<lambda>s. sub_id s = subscription_id) (subscriptions db))"

text \<open>
  The \<^verbatim>\<open>order_by\<close> of the source does not change what \<^verbatim>\<open>scalar_one_or_none\<close> returns.
\<close>

definition get_subscription_by_user :: "Store \<Rightarrow> int \<Rightarrow> error + Subscription option" where
  "get_subscription_by_user db uid =
     scalar_one_or_none
       (filter (\<lambda>s. user_id s = uid \<and> (status s = Some ACTIVE \<or> status s = Some INACTIVE))
          (subscriptions db))"

definition get_active_subscription_by_user :: "Store \<Rightarrow> int \<Rightarrow> error + Subscription option" where
  "get_active_subscription_by_user db uid =
     scalar_one_or_none
       (filter (\<lambda>s. user_id s = uid \<and> status s = Some ACTIVE) (subscriptions db))"

section \<open>The lifecycle operations\<close>

text \<open>
  \<^verbatim>\<open>db.commit()\<close> after an attribute of a loaded row was set: the unit of work writes
  the object back with \<^verbatim>\<open>UPDATE subscriptions SET ... WHERE id = :id\<close>.
\<close>

definition commit_update :: "Subscription \<Rightarrow> Subscription list \<Rightarrow> Subscription list" where
  "commit_update s rows = map (\<lambda>r. if sub_id r = sub_id s then s else r) rows"

text \<open>
  Every operation returns its result, or the exception it raises, together with the
  store it leaves behind. An exception is raised before anything is written; this
  includes the \<^verbatim>\<open>OverflowError\<close> of the date arithmetic.

  \<^verbatim>\<open>create_subscription\<close>: the constructor is given \<^verbatim>\<open>auto_renew\<close> as the request has it;
  the ORM leaves a \<^verbatim>\<open>None\<close> out of the INSERT, so that the column default \<^verbatim>\<open>True\<close>
  is stored.
\<close>

definition create_subscription ::
  "Store \<Rightarrow> datetime \<Rightarrow> SubscriptionCreate \<Rightarrow> (error + Subscription) \<times> Store" where
  "create_subscription db now subscription_data =
     (if c_user_id subscription_data \<notin> users db
      then (Inl (NotFoundException ''User not found''), db)
      else
        case select_active_plan db (Some (c_plan_id subscription_data)) of
          None \<Rightarrow> (Inl (NotFoundException ''Plan not found or inactive''), db)
        | Some plan \<Rightarrow>
            (case get_active_subscription_by_user db (c_user_id subscription_data) of
               Inl e \<Rightarrow> (Inl e, db)
             | Inr (Some existing_subscription) \<Rightarrow>
                 (Inl (ConflictException ''User already has an active subscription''), db)
             | Inr None \<Rightarrow>
                 (let start_date' = now in
                  case add_days start_date' (duration_days plan) of
                    Inl e \<Rightarrow> (Inl e, db)
                  | Inr end_date' \<Rightarrow>
                      (let db_subscription =
                             \<lparr> sub_id = next_id db,
                               user_id = c_user_id subscription_data,
                               plan_id = c_plan_id subscription_data,
                               status = Some ACTIVE,
                               start_date = start_date',
                               end_date = end_date',
                               auto_renew =
                                 (case c_auto_renew subscription_data of
                                    None \<Rightarrow> Some True
                                  | Some b \<Rightarrow> Some b) \<rparr>
                       in (Inr db_subscription,
                           db\<lparr> subscriptions := subscriptions db @ [db_subscription],
                               next_id := next_id db + 1 \<rparr>)))))"

text \<open>
  The plan change of \<^verbatim>\<open>update_subscription\<close> (the block under
  \<^verbatim>\<open>if "plan_id" in update_data\<close>). When the durations differ, the source first
  evaluates \<^verbatim>\<open>remaining_time = subscription.end_date - datetime.utcnow()\<close> and never uses
  the result. \<^verbatim>\<open>datetime.utcnow()\<close> is naive and \<^verbatim>\<open>subscription.end_date\<close> is what the
  query has loaded: Python raises \<^verbatim>\<open>TypeError\<close> for the difference of an aware and a
  naive \<^verbatim>\<open>datetime\<close>, before the new end date is computed and assigned. The
  difference of two naive values is always in the range of \<^verbatim>\<open>timedelta\<close>.
\<close>

fun handle_plan_change ::
  "Store \<Rightarrow> datetime \<Rightarrow> Subscription \<Rightarrow> int option field \<Rightarrow> error + Subscription" where
  "handle_plan_change db now subscription Unset = Inr subscription"
| "handle_plan_change db now subscription (Given pid) =
     (case select_active_plan db pid of
        None \<Rightarrow> Inl (NotFoundException ''Plan not found or inactive'')
      | Some plan \<Rightarrow>
          (case scalar_one (plans db (plan_id subscription)) of
             Inl e \<Rightarrow> Inl e
           | Inr current_plan \<Rightarrow>
               if duration_days plan \<noteq> duration_days current_plan
               then (if tz_aware db then Inl TypeError
                     else
                       case add_days now (duration_days plan) of
                         Inl e \<Rightarrow> Inl e
                       | Inr end_date' \<Rightarrow> Inr (subscription\<lparr> end_date := end_date' \<rparr>))
               else Inr subscription))"

text \<open>
  The loop \<^verbatim>\<open>for field, value in update_data.items(): setattr(subscription, field, value)\<close>,
  in the order of the fields of \<^verbatim>\<open>SubscriptionUpdate\<close>. A \<^verbatim>\<open>plan_id\<close> given as
  \<^verbatim>\<open>None\<close> never reaches the loop: the plan lookup has failed before.
\<close>

definition apply_updates :: "SubscriptionUpdate \<Rightarrow> Subscription \<Rightarrow> Subscription" where
  "apply_updates update_data subscription =
     (let s1 = (case upd_plan_id update_data of
                  Given (Some pid) \<Rightarrow> subscription\<lparr> plan_id := pid \<rparr>
                | _ \<Rightarrow> subscription);
          s2 = (case upd_auto_renew update_data of
                  Given v \<Rightarrow> s1\<lparr> auto_renew := v \<rparr>
                | Unset \<Rightarrow> s1);
          s3 = (case upd_status update_data of
                  Given v \<Rightarrow> s2\<lparr> status := v \<rparr>
                | Unset \<Rightarrow> s2)
      in s3)"

definition update_subscription ::
  "Store \<Rightarrow> datetime \<Rightarrow> int \<Rightarrow> SubscriptionUpdate \<Rightarrow> (error + Subscription) \<times> Store" where
  "update_subscription db now uid subscription_data =
     (case get_active_subscription_by_user db uid of
        Inl e \<Rightarrow> (Inl e, db)
      | Inr None \<Rightarrow> (Inl (NotFoundException ''No active subscription found for user''), db)
      | Inr (Some subscription) \<Rightarrow>
          (case handle_plan_change db now subscription (upd_plan_id subscription_data) of
             Inl e \<Rightarrow> (Inl e, db)
           | Inr subscription' \<Rightarrow>
               (let subscription'' = apply_updates subscription_data subscription'
                in (Inr subscription'',
                    db\<lparr> subscriptions := commit_update subscription'' (subscriptions db) \<rparr>))))"

definition cancel_subscription :: "Store \<Rightarrow> int \<Rightarrow> (error + Subscription) \<times> Store" where
  "cancel_subscription db uid =
     (case get_active_subscription_by_user db uid of
        Inl e \<Rightarrow> (Inl e, db)
      | Inr None \<Rightarrow> (Inl (NotFoundException ''No active subscription found for user''), db)
      | Inr (Some subscription) \<Rightarrow>
          (let subscription' = subscription\<lparr> status := Some CANCELLED, auto_renew := Some False \<rparr>
           in (Inr subscription',
               db\<lparr> subscriptions := commit_update subscription' (subscriptions db) \<rparr>)))"

text \<open>
  \<^verbatim>\<open>expire_subscriptions\<close>: the rows selected, then the loop over them that sets the
  status and counts, then the commit when the count is positive.
\<close>

definition select_expired :: "Store \<Rightarrow> datetime \<Rightarrow> Subscription list" where
  "select_expired db current_time =
     filter (\<lambda>s. status s = Some ACTIVE \<and> end_date s \<le> current_time) (subscriptions db)"

fun expire_loop ::
  "Subscription list \<Rightarrow> Subscription list \<Rightarrow> nat \<Rightarrow> Subscription list \<times> nat" where
  "expire_loop [] rows count = (rows, count)"
| "expire_loop (subscription # rest) rows count =
     expire_loop rest
       (commit_update (subscription\<lparr> status := Some EXPIRED \<rparr>) rows) (count + 1)"

definition expire_subscriptions :: "Store \<Rightarrow> datetime \<Rightarrow> nat \<times> Store" where
  "expire_subscriptions db current_time =
     (let expired_subscriptions = select_expired db current_time;
          (rows, count) = expire_loop expired_subscriptions (subscriptions db) 0
      in if count > 0 then (count, db\<lparr> subscriptions := rows \<rparr>) else (count, db))"

section \<open>The endpoint \<^verbatim>\<open>GET /subscriptions/{user_id}\<close>\<close>

text \<open>
  \<^verbatim>\<open>app/api/subscriptions.py\<close>, \<^verbatim>\<open>get_user_subscription\<close>. The authenticated user is
  resolved by a dependency before the body runs; its id is the parameter \<open>current_user\<close>.
\<close>

definition get_user_subscription :: "Store \<Rightarrow> int \<Rightarrow> int \<Rightarrow> error + Subscription" where
  "get_user_subscription db current_user uid =
     (if uid \<noteq> current_user
      then Inl (HTTPException 403 ''Not authorized to access this subscription'')
      else
        case get_subscription_by_user db uid of
          Inl e \<Rightarrow> Inl e
        | Inr None \<Rightarrow> Inl (HTTPException 404 ''No subscription found for user'')
        | Inr (Some subscription) \<Rightarrow> Inr subscription)"

section \<open>Sequences of operations and the properties of a store\<close>

datatype operation =
    Create datetime SubscriptionCreate
  | Update datetime int SubscriptionUpdate
  | Cancel int
  | Expire datetime

fun apply_operation :: "Store \<Rightarrow> operation \<Rightarrow> Store" where
  "apply_operation db (Create now subscription_data) =
     snd (create_subscription db now subscription_data)"
| "apply_operation db (Update now uid subscription_data) =
     snd (update_subscription db now uid subscription_data)"
| "apply_operation db (Cancel uid) = snd (cancel_subscription db uid)"
| "apply_operation db (Expire now) = snd (expire_subscriptions db now)"

definition run :: "Store \<Rightarrow> operation list \<Rightarrow> Store" where
  "run db ops = foldl apply_operation db ops"

text \<open>I1: every user has at most one row with status ACTIVE.\<close>

definition active_rows :: "Store \<Rightarrow> int \<Rightarrow> Subscription list" where
  "active_rows db uid =
     filter (\<lambda>s. user_id s = uid \<and> status s = Some ACTIVE) (subscriptions db)"

definition at_most_one_active :: "Store \<Rightarrow> bool" where
  "at_most_one_active db \<longleftrightarrow> (\<forall>uid. length (active_rows db uid) \<le> 1)"

text \<open>
  The primary key of \<^verbatim>\<open>subscriptions\<close>: ids are pairwise different, and the sequence is
  ahead of every id in the table.
\<close>

definition primary_key_ok :: "Store \<Rightarrow> bool" where
  "primary_key_ok db \<longleftrightarrow>
     distinct (map sub_id (subscriptions db)) \<and>
     list_all (\<lambda>s. sub_id s < next_id db) (subscriptions db)"

text \<open>
  A subscription is terminal when its status is CANCELLED or EXPIRED. A store has an
  INACTIVE row when some subscription in it has status INACTIVE. An operation requests
  INACTIVE when it is an update whose payload carries \<^verbatim>\<open>status = INACTIVE\<close>.
\<close>

definition terminal :: "Subscription \<Rightarrow> bool" where
  "terminal s \<longleftrightarrow> status s = Some CANCELLED \<or> status s = Some EXPIRED"

definition has_inactive :: "Store \<Rightarrow> bool" where
  "has_inactive db \<longleftrightarrow> Some INACTIVE \<in> set (map status (subscriptions db))"

fun requests_inactive :: "operation \<Rightarrow> bool" where
  "requests_inactive (Update now uid subscription_data) =
     (upd_status subscription_data = Given (Some INACTIVE))"
| "requests_inactive (Create now subscription_data) = False"
| "requests_inactive (Cancel uid) = False"
| "requests_inactive (Expire now) = False"

section \<open>Example data\<close>

text \<open>
  Three active plans with the durations of the seed script (30, 365 and again 30 days), a
  retired plan, an active 14-day plan, an active plan of 3000000 days, and a PostgreSQL
  store with three users and no subscription yet.
\<close>

definition plan_basic :: Plan where
  "plan_basic = \<lparr> duration_days = 30, is_active = Some True \<rparr>"

definition plan_annual :: Plan where
  "plan_annual = \<lparr> duration_days = 365, is_active = Some True \<rparr>"

definition plan_retired :: Plan where
  "plan_retired = \<lparr> duration_days = 14, is_active = Some False \<rparr>"

definition plan_trial :: Plan where
  "plan_trial = \<lparr> duration_days = 14, is_active = Some True \<rparr>"

definition plan_pro :: Plan where
  "plan_pro = \<lparr> duration_days = 30, is_active = Some True \<rparr>"

definition plan_lifetime :: Plan where
  "plan_lifetime = \<lparr> duration_days = 3000000, is_active = Some True \<rparr>"

definition empty_store :: Store where
  "empty_store =
     \<lparr> users = {1, 2, 3},
       plans = [1 \<mapsto> plan_basic, 2 \<mapsto> plan_annual, 3 \<mapsto> plan_retired, 4 \<mapsto> plan_trial,
                5 \<mapsto> plan_pro, 6 \<mapsto> plan_lifetime],
       subscriptions = [],
       next_id = 1,
       tz_aware = True \<rparr>"

text \<open>
  A store in which user 1 holds an ACTIVE subscription to the 30-day plan, ending at
  instant 2592000000000 (30 days after instant 0), and user 2 a CANCELLED one.
\<close>

definition sub_active :: Subscription where
  "sub_active =
     \<lparr> sub_id = 1, user_id = 1, plan_id = 1, status = Some ACTIVE,
       start_date = 0, end_date = 2592000000000, auto_renew = Some True \<rparr>"

definition sub_cancelled :: Subscription where
  "sub_cancelled =
     \<lparr> sub_id = 2, user_id = 2, plan_id = 1, status = Some CANCELLED,
       start_date = 0, end_date = 2592000000000, auto_renew = Some False \<rparr>"

definition busy_store :: Store where
  "busy_store = empty_store\<lparr> subscriptions := [sub_active, sub_cancelled], next_id := 3 \<rparr>"

text \<open>
  Three ACTIVE subscriptions of three users, ending at instants 99, 100 and 101.
\<close>

definition sub_ending :: "int \<Rightarrow> int \<Rightarrow> datetime \<Rightarrow> Subscription" where
  "sub_ending i uid t =
     \<lparr> sub_id = i, user_id = uid, plan_id = 1, status = Some ACTIVE,
       start_date = 0, end_date = t, auto_renew = Some True \<rparr>"

definition sweep_store :: Store where
  "sweep_store =
     empty_store\<lparr> subscriptions := [sub_ending 1 1 99, sub_ending 2 2 100, sub_ending 3 3 101],
                  next_id := 4 \<rparr>"

section \<open>Creating a subscription\<close>

lemma get_active_by_active_rows:
  "get_active_subscription_by_user db uid = scalar_one_or_none (active_rows db uid)"
  by (simp add: get_active_subscription_by_user_def active_rows_def)

lemma add_days_representable:
  assumes "representable t" and "representable (t + days * 86400000000)"
  shows "add_days t days = Inr (t + days * 86400000000)"
proof -
  from assms have "\<bar>days\<bar> \<le> 999999999"
    unfolding representable_def datetime_min_def datetime_max_def by linarith
  with assms(2) show ?thesis
    by (simp add: add_days_def timedelta_def datetime_add_def)
qed

lemma add_days_overflow:
  assumes "\<not> representable (t + days * 86400000000)"
  shows "add_days t days = Inl OverflowError"
  using assms by (simp add: add_days_def timedelta_def datetime_add_def)

text \<open>
  C2, as amended. Let the user exist, the plan exist and be active, and the user have
  no ACTIVE row, and let the clock reading be a representable \<^verbatim>\<open>datetime\<close>. When the
  clock reading plus the plan's duration in days is representable too,
  \<open>create_subscription\<close> appends one row to the table and returns it: its status is
  ACTIVE, its start date is the clock reading, and its end date is the start date plus
  exactly that many days. Otherwise it raises \<open>OverflowError\<close> and inserts nothing.
\<close>

theorem create_subscription_inserts_active:
  assumes "c_user_id d \<in> users db"
    and "plans db (c_plan_id d) = Some plan"
    and "is_active plan = Some True"
    and "active_rows db (c_user_id d) = []"
    and "representable now"
  shows "(representable (now + duration_days plan * 86400000000) \<longrightarrow>
          (\<exists>s. create_subscription db now d =
              (Inr s, db\<lparr> subscriptions := subscriptions db @ [s], next_id := next_id db + 1 \<rparr>)
            \<and> user_id s = c_user_id d \<and> plan_id s = c_plan_id d
            \<and> status s = Some ACTIVE
            \<and> start_date s = now
            \<and> end_date s = start_date s + duration_days plan * 86400000000))
       \<and> (\<not> representable (now + duration_days plan * 86400000000) \<longrightarrow>
          create_subscription db now d = (Inl OverflowError, db))"
proof (intro conjI impI)
  assume "representable (now + duration_days plan * 86400000000)"
  with assms(5) have "add_days now (duration_days plan) =
      Inr (now + duration_days plan * 86400000000)"
    by (rule add_days_representable)
  with assms(1-4)
  show "\<exists>s. create_subscription db now d =
              (Inr s, db\<lparr> subscriptions := subscriptions db @ [s], next_id := next_id db + 1 \<rparr>)
            \<and> user_id s = c_user_id d \<and> plan_id s = c_plan_id d
            \<and> status s = Some ACTIVE
            \<and> start_date s = now
            \<and> end_date s = start_date s + duration_days plan * 86400000000"
    by (simp add: create_subscription_def get_active_by_active_rows Let_def)
next
  assume "\<not> representable (now + duration_days plan * 86400000000)"
  then have "add_days now (duration_days plan) = Inl OverflowError"
    by (rule add_days_overflow)
  with assms(1-4) show "create_subscription db now d = (Inl OverflowError, db)"
    by (simp add: create_subscription_def get_active_by_active_rows Let_def)
qed

text \<open>
  The 30-day plan, subscribed to at instant 1000, ends 30 days later. The plan of
  3000000 days, subscribed to at the same instant, would end after the year 9999: the
  call raises \<open>OverflowError\<close>.
\<close>

theorem create_subscription_inserts_active_witness:
  "(\<exists>s. create_subscription empty_store 1000
          \<lparr> c_user_id = 1, c_plan_id = 1, c_auto_renew = None \<rparr> =
          (Inr s, empty_store\<lparr> subscriptions := [s], next_id := 2 \<rparr>)
        \<and> status s = Some ACTIVE \<and> start_date s = 1000
        \<and> end_date s = 1000 + 30 * 86400000000)
   \<and> create_subscription empty_store 1000
        \<lparr> c_user_id = 1, c_plan_id = 6, c_auto_renew = None \<rparr> =
        (Inl OverflowError, empty_store)"
proof -
  let ?d = "\<lparr> c_user_id = 1, c_plan_id = 1, c_auto_renew = None \<rparr>"
  let ?d6 = "\<lparr> c_user_id = 1, c_plan_id = 6, c_auto_renew = None \<rparr>"
  have now: "representable 1000"
    by (simp add: representable_def datetime_min_def datetime_max_def)
  have "c_user_id ?d \<in> users empty_store"
    and "plans empty_store (c_plan_id ?d) = Some plan_basic"
    and "is_active plan_basic = Some True"
    and "active_rows empty_store (c_user_id ?d) = []"
    by (simp_all add: empty_store_def plan_basic_def active_rows_def)
  from create_subscription_inserts_active [OF this now]
  have "representable (1000 + duration_days plan_basic * 86400000000) \<longrightarrow>
      (\<exists>s. create_subscription empty_store 1000 ?d =
          (Inr s, empty_store\<lparr> subscriptions := subscriptions empty_store @ [s],
                               next_id := next_id empty_store + 1 \<rparr>)
        \<and> user_id s = c_user_id ?d \<and> plan_id s = c_plan_id ?d
        \<and> status s = Some ACTIVE \<and> start_date s = 1000
        \<and> end_date s = start_date s + duration_days plan_basic * 86400000000)"
    by blast
  moreover have "representable (1000 + duration_days plan_basic * 86400000000)"
    by (simp add: representable_def datetime_min_def datetime_max_def plan_basic_def)
  ultimately obtain s where "create_subscription empty_store 1000 ?d =
      (Inr s, empty_store\<lparr> subscriptions := subscriptions empty_store @ [s],
                           next_id := next_id empty_store + 1 \<rparr>)"
    and "status s = Some ACTIVE" and "start_date s = 1000"
    and "end_date s = start_date s + duration_days plan_basic * 86400000000"
    by blast
  then have 1: "\<exists>s. create_subscription empty_store 1000 ?d =
          (Inr s, empty_store\<lparr> subscriptions := [s], next_id := 2 \<rparr>)
        \<and> status s = Some ACTIVE \<and> start_date s = 1000
        \<and> end_date s = 1000 + 30 * 86400000000"
    by (intro exI [of _ s]) (simp add: empty_store_def plan_basic_def)
  have "c_user_id ?d6 \<in> users empty_store"
    and "plans empty_store (c_plan_id ?d6) = Some plan_lifetime"
    and "is_active plan_lifetime = Some True"
    and "active_rows empty_store (c_user_id ?d6) = []"
    by (simp_all add: empty_store_def plan_lifetime_def active_rows_def)
  from create_subscription_inserts_active [OF this now]
  have "\<not> representable (1000 + duration_days plan_lifetime * 86400000000) \<longrightarrow>
      create_subscription empty_store 1000 ?d6 = (Inl OverflowError, empty_store)"
    by blast
  moreover have "\<not> representable (1000 + duration_days plan_lifetime * 86400000000)"
    by (simp add: representable_def datetime_min_def datetime_max_def plan_lifetime_def)
  ultimately have 2: "create_subscription empty_store 1000 ?d6 = (Inl OverflowError, empty_store)"
    by blast
  from 1 2 show ?thesis by blast
qed

text \<open>
  C2, as stated, fails. User 1 exists, plan 6 exists and is active, and user 1 has no
  ACTIVE subscription: the preconditions of create hold. The plan lasts 3000000 days,
  and at instant 0 (1970-01-01) the call raises \<open>OverflowError\<close> and leaves the
  store, with its empty table, as it was.
\<close>

theorem create_subscription_overflow_counterexample:
  "1 \<in> users empty_store
   \<and> plans empty_store 6 = Some plan_lifetime
   \<and> is_active plan_lifetime = Some True
   \<and> active_rows empty_store 1 = []
   \<and> create_subscription empty_store 0
        \<lparr> c_user_id = 1, c_plan_id = 6, c_auto_renew = Some True \<rparr> =
        (Inl OverflowError, empty_store)
   \<and> subscriptions empty_store = []"
  by (simp add: create_subscription_def get_active_subscription_by_user_def active_rows_def
      add_days_def timedelta_def datetime_add_def representable_def datetime_min_def
      datetime_max_def empty_store_def plan_lifetime_def)

section \<open>Facts about the queries and the write-back\<close>

lemma scalar_one_or_none_Some [simp]: "scalar_one_or_none xs = Inr (Some x) \<longleftrightarrow> xs = [x]"
  by (cases xs rule: scalar_one_or_none.cases) auto

lemma scalar_one_or_none_None [simp]: "scalar_one_or_none xs = Inr None \<longleftrightarrow> xs = []"
  by (cases xs rule: scalar_one_or_none.cases) auto

lemma scalar_one_or_none_error: "scalar_one_or_none xs = Inl e \<Longrightarrow> e = MultipleResultsFound \<and> 2 \<le> length xs"
  by (cases xs rule: scalar_one_or_none.cases) auto

lemma active_rows_single:
  assumes "at_most_one_active db" and "s \<in> set (subscriptions db)"
    and "user_id s = uid" and "status s = Some ACTIVE"
  shows "active_rows db uid = [s]"
proof -
  have mem: "s \<in> set (active_rows db uid)"
    using assms by (simp add: active_rows_def)
  have "length (active_rows db uid) \<le> 1"
    using assms(1) by (simp add: at_most_one_active_def)
  with mem show ?thesis
    by (cases "active_rows db uid") auto
qed

lemma commit_update_ids [simp]: "map sub_id (commit_update s rows) = map sub_id rows"
  by (induction rows) (auto simp: commit_update_def)

lemma commit_update_length [simp]: "length (commit_update s rows) = length rows"
  by (simp add: commit_update_def)

lemma commit_update_distinct:
  assumes "distinct (map sub_id rows)" and "s \<in> set rows" and "sub_id s' = sub_id s"
  shows "commit_update s' rows = map (\<lambda>r. if r = s then s' else r) rows"
  unfolding commit_update_def
proof (rule map_cong [OF refl])
  fix r assume "r \<in> set rows"
  with assms have "sub_id r = sub_id s \<longleftrightarrow> r = s"
    by (auto simp: distinct_map inj_on_def)
  with assms(3) show "(if sub_id r = sub_id s' then s' else r) = (if r = s then s' else r)"
    by simp
qed

lemma apply_updates_sub_id [simp]: "sub_id (apply_updates d s) = sub_id s"
  by (simp add: apply_updates_def Let_def split: field.splits option.splits)

lemma apply_updates_user_id [simp]: "user_id (apply_updates d s) = user_id s"
  by (simp add: apply_updates_def Let_def split: field.splits option.splits)

lemma apply_updates_end_date [simp]: "end_date (apply_updates d s) = end_date s"
  by (simp add: apply_updates_def Let_def split: field.splits option.splits)

lemma handle_plan_change_sub_id: "handle_plan_change db now s f = Inr s' \<Longrightarrow> sub_id s' = sub_id s"
  by (cases f) (auto split: option.splits sum.splits if_splits)

lemma handle_plan_change_user_id: "handle_plan_change db now s f = Inr s' \<Longrightarrow> user_id s' = user_id s"
  by (cases f) (auto split: option.splits sum.splits if_splits)

lemma handle_plan_change_status: "handle_plan_change db now s f = Inr s' \<Longrightarrow> status s' = status s"
  by (cases f) (auto split: option.splits sum.splits if_splits)

section \<open>Changing the plan\<close>

text \<open>The example store satisfies the primary key and I1.\<close>

lemma primary_key_ok_busy_store: "primary_key_ok busy_store"
  by (simp add: primary_key_ok_def busy_store_def empty_store_def sub_active_def sub_cancelled_def)

lemma at_most_one_active_busy_store: "at_most_one_active busy_store"
  by (simp add: at_most_one_active_def active_rows_def busy_store_def empty_store_def
      sub_active_def sub_cancelled_def)

text \<open>
  What the plan change is written to do. Let \<open>s\<close> be the ACTIVE subscription of user
  \<open>uid\<close>, in a store that satisfies I1 and the primary key, and let the update carry the
  id of an active plan. When the durations are equal, or when they differ on a store
  that returns naive datetimes and the clock reading plus the new duration is a
  representable datetime \<open>new_end\<close>, the update succeeds and replaces \<open>s\<close> by a row
  bound to the new plan, whose end date is \<open>new_end\<close> when the durations differ, and the
  old end date when they are equal.
\<close>

lemma plan_switch_result:
  assumes "at_most_one_active db" and "primary_key_ok db"
    and "s \<in> set (subscriptions db)" and "user_id s = uid" and "status s = Some ACTIVE"
    and "upd_plan_id d = Given (Some pid)"
    and "plans db pid = Some new_plan" and "is_active new_plan = Some True"
    and "plans db (plan_id s) = Some current_plan"
    and "duration_days new_plan \<noteq> duration_days current_plan \<longrightarrow>
           \<not> tz_aware db \<and> add_days now (duration_days new_plan) = Inr new_end"
  shows "\<exists>s'. update_subscription db now uid d =
            (Inr s', db\<lparr> subscriptions := map (\<lambda>r. if r = s then s' else r) (subscriptions db) \<rparr>)
          \<and> sub_id s' = sub_id s \<and> plan_id s' = pid
          \<and> end_date s' =
              (if duration_days new_plan \<noteq> duration_days current_plan
               then new_end
               else end_date s)"
proof -
  have act: "get_active_subscription_by_user db uid = Inr (Some s)"
    using active_rows_single [OF assms(1,3,4,5)]
    by (simp add: get_active_subscription_by_user_def active_rows_def)
  define s1 where "s1 = (if duration_days new_plan \<noteq> duration_days current_plan
      then s\<lparr> end_date := new_end \<rparr> else s)"
  have hpc: "handle_plan_change db now s (upd_plan_id d) = Inr s1"
    using assms(6-10) by (auto simp: s1_def)
  define s' where "s' = apply_updates d s1"
  have id: "sub_id s' = sub_id s" by (simp add: s'_def s1_def)
  have upd: "update_subscription db now uid d =
      (Inr s', db\<lparr> subscriptions := commit_update s' (subscriptions db) \<rparr>)"
    by (simp add: update_subscription_def act hpc s'_def Let_def)
  have "distinct (map sub_id (subscriptions db))"
    using assms(2) by (simp add: primary_key_ok_def)
  from commit_update_distinct [OF this assms(3) id] upd
  have "update_subscription db now uid d =
      (Inr s', db\<lparr> subscriptions := map (\<lambda>r. if r = s then s' else r) (subscriptions db) \<rparr>)"
    by simp
  moreover have "plan_id s' = pid"
    using assms(6) by (simp add: s'_def apply_updates_def Let_def split: field.splits)
  moreover have "end_date s' =
      (if duration_days new_plan \<noteq> duration_days current_plan
       then new_end else end_date s)"
    by (simp add: s'_def s1_def)
  ultimately show ?thesis using id by blast
qed

text \<open>
  On a store that returns naive datetimes the reset works as written. The subscription
  of user 1 ends after 30 days; twenty days in, with ten days left, the user switches to
  the 14-day plan, and the subscription then ends 14 days after the switch.
\<close>

lemma plan_switch_naive_example:
  "\<exists>s'. update_subscription (busy_store\<lparr> tz_aware := False \<rparr>) 1728000000000 1
            \<lparr> upd_plan_id = Given (Some 4), upd_auto_renew = Unset, upd_status = Unset \<rparr> =
          (Inr s', busy_store\<lparr> subscriptions := [s', sub_cancelled], tz_aware := False \<rparr>)
        \<and> plan_id s' = 4
        \<and> end_date s' = 1728000000000 + 14 * 86400000000"
proof -
  let ?db = "busy_store\<lparr> tz_aware := False \<rparr>"
  let ?d = "\<lparr> upd_plan_id = Given (Some 4), upd_auto_renew = Unset, upd_status = Unset \<rparr>"
  have "at_most_one_active ?db" and "primary_key_ok ?db"
    using at_most_one_active_busy_store primary_key_ok_busy_store
    by (simp_all add: at_most_one_active_def active_rows_def primary_key_ok_def)
  moreover have "sub_active \<in> set (subscriptions ?db)"
    and "user_id sub_active = 1" and "status sub_active = Some ACTIVE"
    and "upd_plan_id ?d = Given (Some 4)"
    and "plans ?db 4 = Some plan_trial" and "is_active plan_trial = Some True"
    and "plans ?db (plan_id sub_active) = Some plan_basic"
    and "duration_days plan_trial \<noteq> duration_days plan_basic \<longrightarrow>
           \<not> tz_aware ?db \<and> add_days 1728000000000 (duration_days plan_trial) = Inr 2937600000000"
    by (simp_all add: busy_store_def empty_store_def sub_active_def plan_trial_def
        add_days_def timedelta_def datetime_add_def representable_def datetime_min_def
        datetime_max_def)
  ultimately obtain s' where "update_subscription ?db 1728000000000 1 ?d =
      (Inr s', ?db\<lparr> subscriptions :=
         map (\<lambda>r. if r = sub_active then s' else r) (subscriptions ?db) \<rparr>)"
    and "plan_id s' = 4"
    and "end_date s' =
      (if duration_days plan_trial \<noteq> duration_days plan_basic
       then 2937600000000
       else end_date sub_active)"
    using plan_switch_result
      [of ?db sub_active 1 ?d 4 plan_trial plan_basic 1728000000000 2937600000000]
    by blast
  moreover have "sub_cancelled \<noteq> sub_active"
    by (simp add: sub_active_def sub_cancelled_def)
  ultimately show ?thesis
    by (intro exI [of _ s'])
      (simp add: busy_store_def plan_trial_def plan_basic_def)
qed

text \<open>
  C3. On a store that returns timezone-aware datetimes, which PostgreSQL does, the
  claim's first half fails. Let \<open>s\<close> be the ACTIVE subscription of user \<open>uid\<close> in a store
  that satisfies I1 and the primary key, and let the update carry the id of an active
  plan. When the new plan's duration differs from the duration of the plan \<open>s\<close> is bound
  to, \<open>update_subscription\<close> raises \<open>TypeError\<close> and the store stays as it was: the end
  date is not reset. When the durations are equal the update succeeds and the end date
  is unchanged, as the claim says.
\<close>

theorem update_subscription_plan_switch_raises:
  assumes "at_most_one_active db" and "primary_key_ok db"
    and "s \<in> set (subscriptions db)" and "user_id s = uid" and "status s = Some ACTIVE"
    and "upd_plan_id d = Given (Some pid)"
    and "plans db pid = Some new_plan" and "is_active new_plan = Some True"
    and "plans db (plan_id s) = Some current_plan"
    and "tz_aware db"
  shows "(duration_days new_plan \<noteq> duration_days current_plan \<longrightarrow>
            update_subscription db now uid d = (Inl TypeError, db))
       \<and> (duration_days new_plan = duration_days current_plan \<longrightarrow>
            (\<exists>s'. update_subscription db now uid d =
               (Inr s', db\<lparr> subscriptions := map (\<lambda>r. if r = s then s' else r) (subscriptions db) \<rparr>)
             \<and> plan_id s' = pid \<and> end_date s' = end_date s))"
proof (intro conjI impI)
  assume differ: "duration_days new_plan \<noteq> duration_days current_plan"
  have act: "get_active_subscription_by_user db uid = Inr (Some s)"
    using active_rows_single [OF assms(1,3,4,5)]
    by (simp add: get_active_subscription_by_user_def active_rows_def)
  have "handle_plan_change db now s (upd_plan_id d) = Inl TypeError"
    using assms(6-10) differ by simp
  with act show "update_subscription db now uid d = (Inl TypeError, db)"
    by (simp add: update_subscription_def)
next
  assume same: "duration_days new_plan = duration_days current_plan"
  then have "duration_days new_plan \<noteq> duration_days current_plan \<longrightarrow>
      \<not> tz_aware db \<and> add_days now (duration_days new_plan) = Inr 0"
    by simp
  from plan_switch_result [OF assms(1-9) this] same
  show "\<exists>s'. update_subscription db now uid d =
               (Inr s', db\<lparr> subscriptions := map (\<lambda>r. if r = s then s' else r) (subscriptions db) \<rparr>)
             \<and> plan_id s' = pid \<and> end_date s' = end_date s"
    by auto
qed

text \<open>
  The subscription of user 1 of the example store, with ten days left of its 30 days.
  A switch to the 14-day plan raises \<open>TypeError\<close> and changes nothing; a switch to the
  other 30-day plan succeeds and keeps the end date.
\<close>

theorem update_subscription_plan_switch_raises_witness:
  "update_subscription busy_store 1728000000000 1
     \<lparr> upd_plan_id = Given (Some 4), upd_auto_renew = Unset, upd_status = Unset \<rparr> =
     (Inl TypeError, busy_store)
   \<and> (\<exists>s'. update_subscription busy_store 1728000000000 1
            \<lparr> upd_plan_id = Given (Some 5), upd_auto_renew = Unset, upd_status = Unset \<rparr> =
          (Inr s', busy_store\<lparr> subscriptions := [s', sub_cancelled] \<rparr>)
        \<and> plan_id s' = 5 \<and> end_date s' = 2592000000000)"
proof -
  let ?d4 = "\<lparr> upd_plan_id = Given (Some 4), upd_auto_renew = Unset, upd_status = Unset \<rparr>"
  let ?d5 = "\<lparr> upd_plan_id = Given (Some 5), upd_auto_renew = Unset, upd_status = Unset \<rparr>"
  have s: "sub_active \<in> set (subscriptions busy_store)"
    "user_id sub_active = 1" "status sub_active = Some ACTIVE"
    by (simp_all add: busy_store_def sub_active_def)
  have cur: "plans busy_store (plan_id sub_active) = Some plan_basic"
    and aware: "tz_aware busy_store"
    by (simp_all add: busy_store_def empty_store_def sub_active_def)
  have "upd_plan_id ?d4 = Given (Some 4)"
    and "plans busy_store 4 = Some plan_trial" and "is_active plan_trial = Some True"
    by (simp_all add: busy_store_def empty_store_def plan_trial_def)
  from update_subscription_plan_switch_raises
    [OF at_most_one_active_busy_store primary_key_ok_busy_store s this cur aware,
      of 1728000000000]
  have 1: "update_subscription busy_store 1728000000000 1 ?d4 = (Inl TypeError, busy_store)"
    by (simp add: plan_trial_def plan_basic_def)
  have "upd_plan_id ?d5 = Given (Some 5)"
    and "plans busy_store 5 = Some plan_pro" and "is_active plan_pro = Some True"
    by (simp_all add: busy_store_def empty_store_def plan_pro_def)
  from update_subscription_plan_switch_raises
    [OF at_most_one_active_busy_store primary_key_ok_busy_store s this cur aware,
      of 1728000000000]
  obtain s' where "update_subscription busy_store 1728000000000 1 ?d5 =
      (Inr s', busy_store\<lparr> subscriptions :=
         map (\<lambda>r. if r = sub_active then s' else r) (subscriptions busy_store) \<rparr>)"
    and "plan_id s' = 5" and "end_date s' = end_date sub_active"
    by (auto simp: plan_pro_def plan_basic_def)
  moreover have "sub_cancelled \<noteq> sub_active" and "end_date sub_active = 2592000000000"
    by (simp_all add: sub_active_def sub_cancelled_def)
  ultimately have "\<exists>s'. update_subscription busy_store 1728000000000 1 ?d5 =
          (Inr s', busy_store\<lparr> subscriptions := [s', sub_cancelled] \<rparr>)
        \<and> plan_id s' = 5 \<and> end_date s' = 2592000000000"
    by (intro exI [of _ s']) (simp add: busy_store_def)
  with 1 show ?thesis by blast
qed

section \<open>Cancelling\<close>

text \<open>
  C7. In a store that satisfies I1 and the primary key, \<open>cancel_subscription\<close> for a user
  whose ACTIVE subscription is \<open>s\<close> returns \<open>s\<close> with status CANCELLED and
  \<open>auto_renew = False\<close> and stores it in place of \<open>s\<close>, every other row as before. For a
  user with no ACTIVE row it raises \<open>NotFoundException\<close> and the store is unchanged.
\<close>

theorem cancel_subscription_effect:
  "(at_most_one_active db \<and> primary_key_ok db \<and> s \<in> set (subscriptions db) \<and>
      user_id s = uid \<and> status s = Some ACTIVE \<longrightarrow>
      cancel_subscription db uid =
        (Inr (s\<lparr> status := Some CANCELLED, auto_renew := Some False \<rparr>),
         db\<lparr> subscriptions :=
               map (\<lambda>r. if r = s then s\<lparr> status := Some CANCELLED, auto_renew := Some False \<rparr> else r)
                 (subscriptions db) \<rparr>))
   \<and> (active_rows db uid = [] \<longrightarrow>
      cancel_subscription db uid =
        (Inl (NotFoundException ''No active subscription found for user''), db))"
proof (intro conjI impI)
  assume a: "at_most_one_active db \<and> primary_key_ok db \<and> s \<in> set (subscriptions db) \<and>
      user_id s = uid \<and> status s = Some ACTIVE"
  let ?s' = "s\<lparr> status := Some CANCELLED, auto_renew := Some False \<rparr>"
  from a have "active_rows db uid = [s]"
    by (simp add: active_rows_single)
  then have act: "get_active_subscription_by_user db uid = Inr (Some s)"
    by (simp add: get_active_subscription_by_user_def active_rows_def)
  from a have "distinct (map sub_id (subscriptions db))"
    by (simp add: primary_key_ok_def)
  then have "commit_update ?s' (subscriptions db) =
      map (\<lambda>r. if r = s then ?s' else r) (subscriptions db)"
    using a by (intro commit_update_distinct) simp_all
  then show "cancel_subscription db uid =
      (Inr ?s', db\<lparr> subscriptions := map (\<lambda>r. if r = s then ?s' else r) (subscriptions db) \<rparr>)"
    by (simp add: cancel_subscription_def act Let_def)
next
  assume "active_rows db uid = []"
  then have "get_active_subscription_by_user db uid = Inr None"
    by (simp add: get_active_subscription_by_user_def active_rows_def)
  then show "cancel_subscription db uid =
      (Inl (NotFoundException ''No active subscription found for user''), db)"
    by (simp add: cancel_subscription_def)
qed

theorem cancel_subscription_effect_witness:
  "cancel_subscription busy_store 1 =
     (Inr (sub_active\<lparr> status := Some CANCELLED, auto_renew := Some False \<rparr>),
      busy_store\<lparr> subscriptions :=
        [sub_active\<lparr> status := Some CANCELLED, auto_renew := Some False \<rparr>, sub_cancelled] \<rparr>)
   \<and> cancel_subscription busy_store 2 =
     (Inl (NotFoundException ''No active subscription found for user''), busy_store)"
proof -
  have "sub_active \<in> set (subscriptions busy_store)"
    and "user_id sub_active = 1" and "status sub_active = Some ACTIVE"
    and "active_rows busy_store 2 = []"
    and "sub_cancelled \<noteq> sub_active"
    by (simp_all add: busy_store_def empty_store_def sub_active_def sub_cancelled_def
        active_rows_def)
  with cancel_subscription_effect [of busy_store sub_active 1]
    cancel_subscription_effect [of busy_store sub_active 2]
    at_most_one_active_busy_store primary_key_ok_busy_store
  show ?thesis
    by (simp add: busy_store_def)
qed

section \<open>The failures of creating a subscription\<close>

text \<open>
  C8. \<open>create_subscription\<close> makes its checks in this order. It raises
  \<open>NotFoundException\<close> when the user does not exist, or the plan is missing or not
  active. When user and active plan are found and the user has an ACTIVE subscription
  (in a store that satisfies I1), it raises \<open>ConflictException\<close>. Whatever exception
  it raises, the store it leaves is the store it was given.
\<close>

theorem create_subscription_failures:
  "((c_user_id d \<notin> users db \<or> plans db (c_plan_id d) = None \<or>
      (\<exists>p. plans db (c_plan_id d) = Some p \<and> is_active p \<noteq> Some True)) \<longrightarrow>
      (\<exists>detail. create_subscription db now d = (Inl (NotFoundException detail), db)))
   \<and> (c_user_id d \<in> users db \<and> plans db (c_plan_id d) = Some plan \<and>
      is_active plan = Some True \<and> at_most_one_active db \<and>
      s \<in> set (subscriptions db) \<and> user_id s = c_user_id d \<and> status s = Some ACTIVE \<longrightarrow>
      create_subscription db now d =
        (Inl (ConflictException ''User already has an active subscription''), db))
   \<and> (fst (create_subscription db now d) = Inl e \<longrightarrow> snd (create_subscription db now d) = db)"
proof (intro conjI impI)
  assume "c_user_id d \<notin> users db \<or> plans db (c_plan_id d) = None \<or>
      (\<exists>p. plans db (c_plan_id d) = Some p \<and> is_active p \<noteq> Some True)"
  then consider "c_user_id d \<notin> users db"
    | "c_user_id d \<in> users db" and "select_active_plan db (Some (c_plan_id d)) = None"
    by (cases "c_user_id d \<in> users db") auto
  then show "\<exists>detail. create_subscription db now d = (Inl (NotFoundException detail), db)"
    by cases (simp_all add: create_subscription_def)
next
  assume a: "c_user_id d \<in> users db \<and> plans db (c_plan_id d) = Some plan \<and>
      is_active plan = Some True \<and> at_most_one_active db \<and>
      s \<in> set (subscriptions db) \<and> user_id s = c_user_id d \<and> status s = Some ACTIVE"
  then have "active_rows db (c_user_id d) = [s]"
    by (simp add: active_rows_single)
  with a show "create_subscription db now d =
      (Inl (ConflictException ''User already has an active subscription''), db)"
    by (simp add: create_subscription_def get_active_by_active_rows)
next
  assume "fst (create_subscription db now d) = Inl e"
  then show "snd (create_subscription db now d) = db"
    by (auto simp: create_subscription_def Let_def split: if_splits option.splits sum.splits)
qed

theorem create_subscription_failures_witness:
  "create_subscription busy_store 5000 \<lparr> c_user_id = 9, c_plan_id = 1, c_auto_renew = None \<rparr> =
     (Inl (NotFoundException ''User not found''), busy_store)
   \<and> create_subscription busy_store 5000 \<lparr> c_user_id = 2, c_plan_id = 3, c_auto_renew = None \<rparr> =
     (Inl (NotFoundException ''Plan not found or inactive''), busy_store)
   \<and> create_subscription busy_store 5000 \<lparr> c_user_id = 1, c_plan_id = 2, c_auto_renew = None \<rparr> =
     (Inl (ConflictException ''User already has an active subscription''), busy_store)"
proof -
  let ?d1 = "\<lparr> c_user_id = 9, c_plan_id = 1, c_auto_renew = None \<rparr>"
  let ?d2 = "\<lparr> c_user_id = 2, c_plan_id = 3, c_auto_renew = None \<rparr>"
  let ?d3 = "\<lparr> c_user_id = 1, c_plan_id = 2, c_auto_renew = None \<rparr>"
  have "c_user_id ?d1 \<notin> users busy_store"
    by (simp add: busy_store_def empty_store_def)
  with create_subscription_failures [where d = ?d1 and db = busy_store and now = 5000]
  obtain detail1 where 1: "create_subscription busy_store 5000 ?d1 =
      (Inl (NotFoundException detail1), busy_store)"
    by blast
  have "plans busy_store (c_plan_id ?d2) = Some plan_retired \<and> is_active plan_retired \<noteq> Some True"
    by (simp add: busy_store_def empty_store_def plan_retired_def)
  with create_subscription_failures [where d = ?d2 and db = busy_store and now = 5000]
  obtain detail2 where 2: "create_subscription busy_store 5000 ?d2 =
      (Inl (NotFoundException detail2), busy_store)"
    by blast
  have "c_user_id ?d3 \<in> users busy_store \<and> plans busy_store (c_plan_id ?d3) = Some plan_annual \<and>
      is_active plan_annual = Some True \<and> sub_active \<in> set (subscriptions busy_store) \<and>
      user_id sub_active = c_user_id ?d3 \<and> status sub_active = Some ACTIVE"
    by (simp add: busy_store_def empty_store_def plan_annual_def sub_active_def)
  with create_subscription_failures
      [where d = ?d3 and db = busy_store and plan = plan_annual and s = sub_active and now = 5000]
    at_most_one_active_busy_store
  have 3: "create_subscription busy_store 5000 ?d3 =
      (Inl (ConflictException ''User already has an active subscription''), busy_store)"
    by blast
  have "detail1 = ''User not found''"
    using 1 by (simp add: create_subscription_def busy_store_def empty_store_def)
  moreover have "detail2 = ''Plan not found or inactive''"
    using 2 by (simp add: create_subscription_def busy_store_def empty_store_def plan_retired_def)
  ultimately show ?thesis using 1 2 3 by simp
qed

section \<open>Reading a user's subscription\<close>

text \<open>
  C10. A subscription returned by \<open>get_subscription_by_user\<close> is a row of the user whose
  status is ACTIVE or INACTIVE. When every row of the user is CANCELLED or EXPIRED, the
  query returns nothing, and the endpoint, called by that user, answers with
  \<open>HTTPException 404\<close> and the detail \<^verbatim>\<open>No subscription found for user\<close>.
\<close>

theorem get_subscription_by_user_hides_history:
  "(get_subscription_by_user db uid = Inr (Some s) \<longrightarrow>
      s \<in> set (subscriptions db) \<and> user_id s = uid \<and>
      (status s = Some ACTIVE \<or> status s = Some INACTIVE))
   \<and> ((\<forall>r \<in> set (subscriptions db). user_id r = uid \<longrightarrow>
          status r = Some CANCELLED \<or> status r = Some EXPIRED) \<longrightarrow>
      get_subscription_by_user db uid = Inr None \<and>
      get_user_subscription db uid uid =
        Inl (HTTPException 404 ''No subscription found for user''))"
proof (intro conjI impI)
  let ?P = "\<lambda>r. user_id r = uid \<and> (status r = Some ACTIVE \<or> status r = Some INACTIVE)"
  assume "get_subscription_by_user db uid = Inr (Some s)"
  then have "filter ?P (subscriptions db) = [s]"
    by (simp add: get_subscription_by_user_def)
  then have "s \<in> set (filter ?P (subscriptions db))"
    by simp
  then show "s \<in> set (subscriptions db)" and "user_id s = uid"
    and "status s = Some ACTIVE \<or> status s = Some INACTIVE"
    by simp_all
next
  assume h: "\<forall>r \<in> set (subscriptions db). user_id r = uid \<longrightarrow>
      status r = Some CANCELLED \<or> status r = Some EXPIRED"
  have "filter (\<lambda>r. user_id r = uid \<and> (status r = Some ACTIVE \<or> status r = Some INACTIVE))
      (subscriptions db) = []"
    using h by (auto simp: filter_empty_conv)
  then show none: "get_subscription_by_user db uid = Inr None"
    by (simp add: get_subscription_by_user_def)
  show "get_user_subscription db uid uid =
      Inl (HTTPException 404 ''No subscription found for user'')"
    by (simp add: get_user_subscription_def none)
qed

text \<open>
  User 2 of the example store has a CANCELLED subscription, which
  \<open>get_subscription_by_id\<close> finds, and gets 404 from the endpoint.
\<close>

theorem get_subscription_by_user_hides_history_witness:
  "get_subscription_by_id busy_store 2 = Inr (Some sub_cancelled)
   \<and> user_id sub_cancelled = 2
   \<and> get_subscription_by_user busy_store 2 = Inr None
   \<and> get_user_subscription busy_store 2 2 =
       Inl (HTTPException 404 ''No subscription found for user'')
   \<and> get_subscription_by_user busy_store 1 = Inr (Some sub_active)
   \<and> status sub_active = Some ACTIVE"
proof -
  have "\<forall>r \<in> set (subscriptions busy_store). user_id r = 2 \<longrightarrow>
      status r = Some CANCELLED \<or> status r = Some EXPIRED"
    by (simp add: busy_store_def sub_active_def sub_cancelled_def)
  with get_subscription_by_user_hides_history [of busy_store 2]
  have "get_subscription_by_user busy_store 2 = Inr None"
    and "get_user_subscription busy_store 2 2 =
       Inl (HTTPException 404 ''No subscription found for user'')"
    by blast+
  moreover have "get_subscription_by_user busy_store 1 = Inr (Some sub_active)"
    by (simp add: get_subscription_by_user_def busy_store_def sub_active_def sub_cancelled_def)
  moreover from this get_subscription_by_user_hides_history [of busy_store 1 sub_active]
  have "status sub_active = Some ACTIVE \<or> status sub_active = Some INACTIVE"
    by blast
  then have "status sub_active = Some ACTIVE"
    by (simp add: sub_active_def)
  moreover have "get_subscription_by_id busy_store 2 = Inr (Some sub_cancelled)"
    and "user_id sub_cancelled = 2"
    by (simp_all add: get_subscription_by_id_def busy_store_def sub_active_def sub_cancelled_def)
  ultimately show ?thesis by simp
qed

section \<open>Expiring\<close>

lemma expire_loop_count: "snd (expire_loop ss rows c) = c + length ss"
  by (induction ss arbitrary: rows c) simp_all

lemma expire_loop_ids: "map sub_id (fst (expire_loop ss rows c)) = map sub_id rows"
  by (induction ss arbitrary: rows c) simp_all

lemma expire_loop_closed_form:
  assumes "\<forall>e \<in> set ss. \<forall>r \<in> set rows.
      sub_id r = sub_id e \<longrightarrow> r\<lparr> status := Some EXPIRED \<rparr> = e\<lparr> status := Some EXPIRED \<rparr>"
  shows "fst (expire_loop ss rows c) =
      map (\<lambda>r. if sub_id r \<in> sub_id ` set ss then r\<lparr> status := Some EXPIRED \<rparr> else r) rows"
  using assms
proof (induction ss arbitrary: rows c)
  case Nil
  then show ?case by simp
next
  case (Cons s rest)
  let ?rows' = "commit_update (s\<lparr> status := Some EXPIRED \<rparr>) rows"
  have rows': "?rows' =
      map (\<lambda>r. if sub_id r = sub_id s then r\<lparr> status := Some EXPIRED \<rparr> else r) rows"
    unfolding commit_update_def using Cons.prems by (intro map_cong) auto
  have "\<forall>e \<in> set rest. \<forall>r \<in> set ?rows'.
      sub_id r = sub_id e \<longrightarrow> r\<lparr> status := Some EXPIRED \<rparr> = e\<lparr> status := Some EXPIRED \<rparr>"
    unfolding rows' using Cons.prems by (auto split: if_splits)
  from Cons.IH [OF this]
  have "fst (expire_loop (s # rest) rows c) =
      map (\<lambda>r. if sub_id r \<in> sub_id ` set rest then r\<lparr> status := Some EXPIRED \<rparr> else r) ?rows'"
    by simp
  also have "\<dots> =
      map (\<lambda>r. if sub_id r \<in> sub_id ` set (s # rest) then r\<lparr> status := Some EXPIRED \<rparr> else r) rows"
    unfolding rows' by (auto simp: comp_def)
  finally show ?case .
qed

lemma filter_ids_distinct:
  assumes "distinct (map sub_id rows)" and "r \<in> set rows"
  shows "sub_id r \<in> sub_id ` set (filter P rows) \<longleftrightarrow> P r"
  using assms by (auto simp: distinct_map inj_on_def)

text \<open>
  C4. In a store that satisfies the primary key, \<open>expire_subscriptions\<close> at instant
  \<open>asOf\<close> returns the number of rows that are ACTIVE and end at or before \<open>asOf\<close>, and
  leaves the table with exactly these rows set to EXPIRED: every other row, and every
  other column of the rows it expires, is as before.
\<close>

theorem expire_subscriptions_exact:
  assumes "primary_key_ok db"
  shows "expire_subscriptions db asOf =
    (length (filter (\<lambda>s. status s = Some ACTIVE \<and> end_date s \<le> asOf) (subscriptions db)),
     db\<lparr> subscriptions :=
           map (\<lambda>s. if status s = Some ACTIVE \<and> end_date s \<le> asOf
                     then s\<lparr> status := Some EXPIRED \<rparr> else s)
             (subscriptions db) \<rparr>)"
proof -
  let ?due = "\<lambda>s. status s = Some ACTIVE \<and> end_date s \<le> asOf"
  let ?rows = "subscriptions db"
  let ?ss = "filter ?due ?rows"
  let ?new = "map (\<lambda>s. if ?due s then s\<lparr> status := Some EXPIRED \<rparr> else s) ?rows"
  have d: "distinct (map sub_id ?rows)"
    using assms by (simp add: primary_key_ok_def)
  have "\<forall>e \<in> set ?ss. \<forall>r \<in> set ?rows.
      sub_id r = sub_id e \<longrightarrow> r\<lparr> status := Some EXPIRED \<rparr> = e\<lparr> status := Some EXPIRED \<rparr>"
    using d by (auto simp: distinct_map inj_on_def)
  from expire_loop_closed_form [OF this, of 0]
  have "fst (expire_loop ?ss ?rows 0) =
      map (\<lambda>r. if sub_id r \<in> sub_id ` set ?ss then r\<lparr> status := Some EXPIRED \<rparr> else r) ?rows" .
  also have "\<dots> = ?new"
    using filter_ids_distinct [OF d] by (intro map_cong) auto
  finally have rows: "fst (expire_loop ?ss ?rows 0) = ?new" .
  have count: "snd (expire_loop ?ss ?rows 0) = length ?ss"
    by (simp add: expire_loop_count)
  have loop: "expire_loop ?ss ?rows 0 = (?new, length ?ss)"
    using rows count by (simp add: prod_eq_iff)
  show ?thesis
  proof (cases "?ss = []")
    case True
    then have "\<forall>s \<in> set ?rows. \<not> ?due s"
      by (simp add: filter_empty_conv)
    then have "?new = ?rows"
      by (intro map_idI) auto
    with True loop show ?thesis
      by (simp add: expire_subscriptions_def select_expired_def)
  next
    case False
    with loop show ?thesis
      by (simp add: expire_subscriptions_def select_expired_def)
  qed
qed

lemma expire_loop_rows_after:
  "r' \<in> set (fst (expire_loop ss rows c)) \<Longrightarrow>
     (sub_id r' \<in> sub_id ` set ss \<longrightarrow> status r' = Some EXPIRED) \<and>
     (sub_id r' \<notin> sub_id ` set ss \<longrightarrow> r' \<in> set rows)"
proof (induction ss arbitrary: rows c)
  case Nil
  then show ?case by simp
next
  case (Cons s rest)
  let ?rows' = "commit_update (s\<lparr> status := Some EXPIRED \<rparr>) rows"
  from Cons.prems have mem: "r' \<in> set (fst (expire_loop rest ?rows' (c + 1)))"
    by simp
  note ih = Cons.IH [OF mem]
  show ?case
  proof (cases "sub_id r' \<in> sub_id ` set rest")
    case True
    with ih show ?thesis by simp
  next
    case False
    with ih have "r' \<in> set ?rows'" by simp
    then have "(sub_id r' = sub_id s \<and> r' = s\<lparr> status := Some EXPIRED \<rparr>) \<or>
        (sub_id r' \<noteq> sub_id s \<and> r' \<in> set rows)"
      by (auto simp: commit_update_def split: if_splits)
    with False show ?thesis by auto
  qed
qed

lemma expire_subscriptions_unfold:
  "expire_subscriptions db t =
     (if select_expired db t = [] then (0, db)
      else (length (select_expired db t),
            db\<lparr> subscriptions :=
                  fst (expire_loop (select_expired db t) (subscriptions db) 0) \<rparr>))"
proof -
  obtain rows n where loop: "expire_loop (select_expired db t) (subscriptions db) 0 = (rows, n)"
    by (cases "expire_loop (select_expired db t) (subscriptions db) 0")
  then have "n = length (select_expired db t)"
    using expire_loop_count [of "select_expired db t" "subscriptions db" 0] by simp
  with loop show ?thesis
    by (simp add: expire_subscriptions_def)
qed

lemma select_expired_after_expire:
  "select_expired (snd (expire_subscriptions db t)) t = []"
proof (cases "select_expired db t = []")
  case True
  then show ?thesis by (simp add: expire_subscriptions_unfold)
next
  case False
  let ?ss = "select_expired db t"
  let ?rows' = "fst (expire_loop ?ss (subscriptions db) 0)"
  have no_due: "\<not> (status r' = Some ACTIVE \<and> end_date r' \<le> t)" if "r' \<in> set ?rows'" for r'
  proof (cases "sub_id r' \<in> sub_id ` set ?ss")
    case True
    with expire_loop_rows_after [OF that] have "status r' = Some EXPIRED" by blast
    then show ?thesis by simp
  next
    case False
    with expire_loop_rows_after [OF that] have "r' \<in> set (subscriptions db)" by blast
    moreover from False have "r' \<notin> set ?ss" by blast
    ultimately show ?thesis
      by (simp add: select_expired_def)
  qed
  from False have "subscriptions (snd (expire_subscriptions db t)) = ?rows'"
    by (simp add: expire_subscriptions_unfold)
  then have "select_expired (snd (expire_subscriptions db t)) t =
      filter (\<lambda>s. status s = Some ACTIVE \<and> end_date s \<le> t) ?rows'"
    by (simp add: select_expired_def)
  also have "\<dots> = []"
    using no_due by (simp only: filter_empty_conv) blast
  finally show ?thesis .
qed

text \<open>
  C5. For every store and every instant \<open>t\<close>, a second \<open>expire_subscriptions\<close> at \<open>t\<close>,
  run on the store the first one leaves, returns 0 and leaves that store as it is.
\<close>

theorem expire_subscriptions_idempotent:
  "expire_subscriptions (snd (expire_subscriptions db t)) t =
     (0, snd (expire_subscriptions db t))"
  by (simp add: expire_subscriptions_unfold [of "snd (expire_subscriptions db t)"]
      select_expired_after_expire)

text \<open>
  Three ACTIVE subscriptions ending at 99, 100 and 101, swept at 100: the first two
  expire, the third stays ACTIVE, and the count is 2.
\<close>

theorem expire_subscriptions_exact_witness:
  "expire_subscriptions sweep_store 100 =
     (2, sweep_store\<lparr> subscriptions :=
           [(sub_ending 1 1 99)\<lparr> status := Some EXPIRED \<rparr>,
            (sub_ending 2 2 100)\<lparr> status := Some EXPIRED \<rparr>,
            sub_ending 3 3 101] \<rparr>)"
proof -
  have "primary_key_ok sweep_store"
    by (simp add: primary_key_ok_def sweep_store_def sub_ending_def)
  from expire_subscriptions_exact [OF this, of 100]
  show ?thesis
    by (simp add: sweep_store_def sub_ending_def)
qed

text \<open>The first sweep of the example expires two rows, the second none.\<close>

theorem expire_subscriptions_idempotent_witness:
  "fst (expire_subscriptions sweep_store 100) = 2
   \<and> expire_subscriptions (snd (expire_subscriptions sweep_store 100)) 100 =
       (0, snd (expire_subscriptions sweep_store 100))"
proof -
  have "select_expired sweep_store 100 = [sub_ending 1 1 99, sub_ending 2 2 100]"
    by (simp add: select_expired_def sweep_store_def sub_ending_def)
  then have "fst (expire_subscriptions sweep_store 100) = 2"
    by (simp add: expire_subscriptions_unfold)
  with expire_subscriptions_idempotent [of sweep_store 100]
  show ?thesis by simp
qed

section \<open>What each operation does to the table\<close>

lemma create_subscription_store:
  "snd (create_subscription db now d) = db \<or>
   (\<exists>s. active_rows db (c_user_id d) = [] \<and> sub_id s = next_id db \<and>
        user_id s = c_user_id d \<and> status s = Some ACTIVE \<and>
        snd (create_subscription db now d) =
          db\<lparr> subscriptions := subscriptions db @ [s], next_id := next_id db + 1 \<rparr>)"
proof (cases "fst (create_subscription db now d)")
  case (Inl e)
  then have "snd (create_subscription db now d) = db"
    by (auto simp: create_subscription_def Let_def split: if_splits option.splits sum.splits)
  then show ?thesis ..
next
  case (Inr s)
  then have "active_rows db (c_user_id d) = []" and "sub_id s = next_id db"
    and "user_id s = c_user_id d" and "status s = Some ACTIVE"
    and "snd (create_subscription db now d) =
          db\<lparr> subscriptions := subscriptions db @ [s], next_id := next_id db + 1 \<rparr>"
    by (auto simp: create_subscription_def get_active_by_active_rows Let_def
        split: if_splits option.splits sum.splits)
  then show ?thesis by blast
qed

lemma update_subscription_store:
  "snd (update_subscription db now uid d) = db \<or>
   (\<exists>s s'. active_rows db uid = [s] \<and> sub_id s' = sub_id s \<and> user_id s' = user_id s \<and>
        status s' = (case upd_status d of Unset \<Rightarrow> Some ACTIVE | Given v \<Rightarrow> v) \<and>
        snd (update_subscription db now uid d) =
          db\<lparr> subscriptions := commit_update s' (subscriptions db) \<rparr>)"
proof (cases "get_active_subscription_by_user db uid")
  case (Inl e)
  then show ?thesis by (simp add: update_subscription_def)
next
  case (Inr found)
  show ?thesis
  proof (cases found)
    case None
    with Inr show ?thesis by (simp add: update_subscription_def)
  next
    case (Some s)
    with Inr have rows: "active_rows db uid = [s]"
      by (simp add: get_active_by_active_rows)
    then have "s \<in> set (active_rows db uid)" by simp
    then have act: "status s = Some ACTIVE"
      by (simp add: active_rows_def)
    show ?thesis
    proof (cases "handle_plan_change db now s (upd_plan_id d)")
      case (Inl e)
      with Inr Some show ?thesis by (simp add: update_subscription_def)
    next
      case (Inr s1)
      let ?s' = "apply_updates d s1"
      have "sub_id ?s' = sub_id s" and "user_id ?s' = user_id s"
        using handle_plan_change_sub_id [OF Inr] handle_plan_change_user_id [OF Inr]
        by simp_all
      moreover have "status ?s' = (case upd_status d of Unset \<Rightarrow> Some ACTIVE | Given v \<Rightarrow> v)"
        using handle_plan_change_status [OF Inr] act
        by (simp add: apply_updates_def Let_def split: field.splits option.splits)
      moreover have "snd (update_subscription db now uid d) =
          db\<lparr> subscriptions := commit_update ?s' (subscriptions db) \<rparr>"
        using \<open>get_active_subscription_by_user db uid = Inr found\<close> Some Inr
        by (simp add: update_subscription_def Let_def)
      ultimately show ?thesis using rows by blast
    qed
  qed
qed

lemma cancel_subscription_store:
  "snd (cancel_subscription db uid) = db \<or>
   (\<exists>s s'. active_rows db uid = [s] \<and> sub_id s' = sub_id s \<and> user_id s' = user_id s \<and>
        status s' = Some CANCELLED \<and>
        snd (cancel_subscription db uid) =
          db\<lparr> subscriptions := commit_update s' (subscriptions db) \<rparr>)"
proof (cases "fst (cancel_subscription db uid)")
  case (Inl e)
  then have "snd (cancel_subscription db uid) = db"
    by (auto simp: cancel_subscription_def Let_def split: option.splits sum.splits)
  then show ?thesis ..
next
  case (Inr s')
  then obtain s where "active_rows db uid = [s]"
    and "s' = s\<lparr> status := Some CANCELLED, auto_renew := Some False \<rparr>"
    and "snd (cancel_subscription db uid) =
          db\<lparr> subscriptions := commit_update s' (subscriptions db) \<rparr>"
    by (auto simp: cancel_subscription_def get_active_by_active_rows Let_def
        split: option.splits sum.splits)
  then have "active_rows db uid = [s] \<and> sub_id s' = sub_id s \<and> user_id s' = user_id s \<and>
        status s' = Some CANCELLED \<and>
        snd (cancel_subscription db uid) =
          db\<lparr> subscriptions := commit_update s' (subscriptions db) \<rparr>"
    by simp
  then show ?thesis by blast
qed

lemma expire_subscriptions_store:
  "snd (expire_subscriptions db t) =
     db\<lparr> subscriptions := fst (expire_loop (select_expired db t) (subscriptions db) 0) \<rparr>"
  by (simp add: expire_subscriptions_unfold)

section \<open>The primary key is kept\<close>

lemma primary_key_ok_ids:
  "primary_key_ok db \<longleftrightarrow>
     distinct (map sub_id (subscriptions db)) \<and>
     (\<forall>i \<in> set (map sub_id (subscriptions db)). i < next_id db)"
  by (simp add: primary_key_ok_def list_all_iff)

lemma primary_key_ok_same_ids:
  "map sub_id (subscriptions db') = map sub_id (subscriptions db) \<Longrightarrow>
     next_id db' = next_id db \<Longrightarrow> primary_key_ok db' = primary_key_ok db"
  by (simp only: primary_key_ok_ids)

lemma primary_key_ok_commit_update:
  "primary_key_ok db \<Longrightarrow>
     primary_key_ok (db\<lparr> subscriptions := commit_update s' (subscriptions db) \<rparr>)"
  using primary_key_ok_same_ids
    [of "db\<lparr> subscriptions := commit_update s' (subscriptions db) \<rparr>" db]
  by simp

lemma active_rows_member:
  "active_rows db uid = [s] \<Longrightarrow>
     s \<in> set (subscriptions db) \<and> user_id s = uid \<and> status s = Some ACTIVE"
proof -
  assume "active_rows db uid = [s]"
  then have "s \<in> set (active_rows db uid)" by simp
  then show ?thesis by (simp add: active_rows_def)
qed

lemma primary_key_ok_step:
  assumes "primary_key_ok db"
  shows "primary_key_ok (apply_operation db op)"
proof (cases op)
  case (Create now d)
  from create_subscription_store [of db now d] show ?thesis
  proof
    assume "snd (create_subscription db now d) = db"
    with assms Create show ?thesis by simp
  next
    assume "\<exists>s. active_rows db (c_user_id d) = [] \<and> sub_id s = next_id db \<and>
        user_id s = c_user_id d \<and> status s = Some ACTIVE \<and>
        snd (create_subscription db now d) =
          db\<lparr> subscriptions := subscriptions db @ [s], next_id := next_id db + 1 \<rparr>"
    then obtain s where "sub_id s = next_id db"
      and "snd (create_subscription db now d) =
          db\<lparr> subscriptions := subscriptions db @ [s], next_id := next_id db + 1 \<rparr>"
      by blast
    with assms Create show ?thesis
      by (fastforce simp: primary_key_ok_def list_all_iff)
  qed
next
  case (Update now uid d)
  from update_subscription_store [of db now uid d] show ?thesis
  proof
    assume "snd (update_subscription db now uid d) = db"
    with assms Update show ?thesis by simp
  next
    assume "\<exists>s s'. active_rows db uid = [s] \<and> sub_id s' = sub_id s \<and> user_id s' = user_id s \<and>
        status s' = (case upd_status d of Unset \<Rightarrow> Some ACTIVE | Given v \<Rightarrow> v) \<and>
        snd (update_subscription db now uid d) =
          db\<lparr> subscriptions := commit_update s' (subscriptions db) \<rparr>"
    then obtain s s' where "active_rows db uid = [s]" and "sub_id s' = sub_id s"
      and "snd (update_subscription db now uid d) =
          db\<lparr> subscriptions := commit_update s' (subscriptions db) \<rparr>"
      by blast
    with assms Update show ?thesis
      by (simp add: primary_key_ok_commit_update)
  qed
next
  case (Cancel uid)
  from cancel_subscription_store [of db uid] show ?thesis
  proof
    assume "snd (cancel_subscription db uid) = db"
    with assms Cancel show ?thesis by simp
  next
    assume "\<exists>s s'. active_rows db uid = [s] \<and> sub_id s' = sub_id s \<and> user_id s' = user_id s \<and>
        status s' = Some CANCELLED \<and>
        snd (cancel_subscription db uid) =
          db\<lparr> subscriptions := commit_update s' (subscriptions db) \<rparr>"
    then obtain s s' where "active_rows db uid = [s]" and "sub_id s' = sub_id s"
      and "snd (cancel_subscription db uid) =
          db\<lparr> subscriptions := commit_update s' (subscriptions db) \<rparr>"
      by blast
    with assms Cancel show ?thesis
      by (simp add: primary_key_ok_commit_update)
  qed
next
  case (Expire t)
  have "primary_key_ok (snd (expire_subscriptions db t)) = primary_key_ok db"
    by (intro primary_key_ok_same_ids) (simp_all add: expire_subscriptions_store expire_loop_ids)
  with assms Expire show ?thesis by simp
qed

lemma primary_key_ok_run: "primary_key_ok db \<Longrightarrow> primary_key_ok (run db ops)"
  unfolding run_def
  by (induction ops arbitrary: db) (simp_all add: primary_key_ok_step)

section \<open>The single ACTIVE subscription\<close>

lemma filter_map_length_le:
  "(\<And>r. r \<in> set rows \<Longrightarrow> P (g r) \<Longrightarrow> P r) \<Longrightarrow>
     length (filter P (map g rows)) \<le> length (filter P rows)"
  by (induction rows) auto

lemma active_count_commit_not_active:
  assumes "status s' \<noteq> Some ACTIVE"
  shows "length (filter (\<lambda>r. user_id r = u \<and> status r = Some ACTIVE) (commit_update s' rows))
       \<le> length (filter (\<lambda>r. user_id r = u \<and> status r = Some ACTIVE) rows)"
  unfolding commit_update_def
  using assms by (intro filter_map_length_le) (auto split: if_splits)

lemma active_count_commit_same_user:
  assumes "distinct (map sub_id rows)" and "s \<in> set rows" and "status s = Some ACTIVE"
    and "sub_id s' = sub_id s" and "user_id s' = user_id s"
  shows "length (filter (\<lambda>r. user_id r = u \<and> status r = Some ACTIVE) (commit_update s' rows))
       \<le> length (filter (\<lambda>r. user_id r = u \<and> status r = Some ACTIVE) rows)"
  unfolding commit_update_distinct [OF assms(1,2,4)]
  using assms by (intro filter_map_length_le) (auto split: if_splits)

lemma active_count_expire_loop:
  "length (filter (\<lambda>r. user_id r = u \<and> status r = Some ACTIVE) (fst (expire_loop ss rows c)))
     \<le> length (filter (\<lambda>r. user_id r = u \<and> status r = Some ACTIVE) rows)"
proof (induction ss arbitrary: rows c)
  case Nil
  then show ?case by simp
next
  case (Cons s rest)
  let ?A = "\<lambda>rows. length (filter (\<lambda>r. user_id r = u \<and> status r = Some ACTIVE) rows)"
  have "?A (fst (expire_loop (s # rest) rows c))
      \<le> ?A (commit_update (s\<lparr> status := Some EXPIRED \<rparr>) rows)"
    using Cons.IH by simp
  also have "\<dots> \<le> ?A rows"
    by (intro active_count_commit_not_active) simp
  finally show ?case .
qed

lemma at_most_one_active_commit:
  assumes "at_most_one_active db" and "primary_key_ok db" and "active_rows db uid = [s]"
    and "sub_id s' = sub_id s" and "user_id s' = user_id s"
  shows "at_most_one_active (db\<lparr> subscriptions := commit_update s' (subscriptions db) \<rparr>)"
proof -
  have d: "distinct (map sub_id (subscriptions db))"
    using assms(2) by (simp add: primary_key_ok_def)
  from active_rows_member [OF assms(3)]
  have "s \<in> set (subscriptions db)" and "status s = Some ACTIVE" by simp_all
  from active_count_commit_same_user [OF d this assms(4,5)] assms(1)
  show ?thesis
    unfolding at_most_one_active_def active_rows_def
    by (auto intro: order_trans)
qed

lemma at_most_one_active_step:
  assumes "at_most_one_active db" and "primary_key_ok db"
  shows "at_most_one_active (apply_operation db op)"
proof (cases op)
  case (Create now d)
  from create_subscription_store [of db now d] show ?thesis
  proof
    assume "snd (create_subscription db now d) = db"
    with assms Create show ?thesis by simp
  next
    assume "\<exists>s. active_rows db (c_user_id d) = [] \<and> sub_id s = next_id db \<and>
        user_id s = c_user_id d \<and> status s = Some ACTIVE \<and>
        snd (create_subscription db now d) =
          db\<lparr> subscriptions := subscriptions db @ [s], next_id := next_id db + 1 \<rparr>"
    then obtain s where none: "active_rows db (c_user_id d) = []"
      and s: "user_id s = c_user_id d"
      and db': "snd (create_subscription db now d) =
          db\<lparr> subscriptions := subscriptions db @ [s], next_id := next_id db + 1 \<rparr>"
      by blast
    have "length (active_rows (snd (create_subscription db now d)) u) \<le> 1" for u
    proof (cases "u = c_user_id d")
      case True
      with none s show ?thesis by (simp add: db' active_rows_def)
    next
      case False
      with s have "active_rows (snd (create_subscription db now d)) u = active_rows db u"
        by (simp add: db' active_rows_def)
      with assms(1) show ?thesis by (simp add: at_most_one_active_def)
    qed
    with Create show ?thesis by (simp add: at_most_one_active_def)
  qed
next
  case (Update now uid d)
  from update_subscription_store [of db now uid d] show ?thesis
  proof
    assume "snd (update_subscription db now uid d) = db"
    with assms Update show ?thesis by simp
  next
    assume "\<exists>s s'. active_rows db uid = [s] \<and> sub_id s' = sub_id s \<and> user_id s' = user_id s \<and>
        status s' = (case upd_status d of Unset \<Rightarrow> Some ACTIVE | Given v \<Rightarrow> v) \<and>
        snd (update_subscription db now uid d) =
          db\<lparr> subscriptions := commit_update s' (subscriptions db) \<rparr>"
    then obtain s s' where "active_rows db uid = [s]" and "sub_id s' = sub_id s"
      and "user_id s' = user_id s"
      and "snd (update_subscription db now uid d) =
          db\<lparr> subscriptions := commit_update s' (subscriptions db) \<rparr>"
      by blast
    with assms Update show ?thesis
      by (simp add: at_most_one_active_commit)
  qed
next
  case (Cancel uid)
  from cancel_subscription_store [of db uid] show ?thesis
  proof
    assume "snd (cancel_subscription db uid) = db"
    with assms Cancel show ?thesis by simp
  next
    assume "\<exists>s s'. active_rows db uid = [s] \<and> sub_id s' = sub_id s \<and> user_id s' = user_id s \<and>
        status s' = Some CANCELLED \<and>
        snd (cancel_subscription db uid) =
          db\<lparr> subscriptions := commit_update s' (subscriptions db) \<rparr>"
    then obtain s s' where "active_rows db uid = [s]" and "sub_id s' = sub_id s"
      and "user_id s' = user_id s"
      and "snd (cancel_subscription db uid) =
          db\<lparr> subscriptions := commit_update s' (subscriptions db) \<rparr>"
      by blast
    with assms Cancel show ?thesis
      by (simp add: at_most_one_active_commit)
  qed
next
  case (Expire t)
  have "length (active_rows (snd (expire_subscriptions db t)) u) \<le> 1" for u
  proof -
    have "length (active_rows (snd (expire_subscriptions db t)) u) \<le> length (active_rows db u)"
      by (simp add: expire_subscriptions_store active_rows_def active_count_expire_loop)
    also have "\<dots> \<le> 1"
      using assms(1) by (simp add: at_most_one_active_def)
    finally show ?thesis .
  qed
  with Expire show ?thesis by (simp add: at_most_one_active_def)
qed

lemma invariants_run:
  "at_most_one_active db \<Longrightarrow> primary_key_ok db \<Longrightarrow>
     at_most_one_active (run db ops) \<and> primary_key_ok (run db ops)"
  unfolding run_def
  by (induction ops arbitrary: db) (simp_all add: at_most_one_active_step primary_key_ok_step)

text \<open>
  C1. From a store that satisfies I1 (and the primary key of the table), every sequence
  of \<open>create_subscription\<close>, \<open>update_subscription\<close>, \<open>cancel_subscription\<close> and
  \<open>expire_subscriptions\<close> calls, with any arguments and clock readings, leads to a store
  that satisfies I1. In particular, when the user of a create request already has an
  ACTIVE subscription, \<open>create_subscription\<close> inserts nothing, and where it would
  otherwise insert (the user and an active plan are found) it raises
  \<open>ConflictException\<close>.
\<close>

theorem at_most_one_active_invariant:
  assumes "at_most_one_active db" and "primary_key_ok db"
  shows "at_most_one_active (run db ops)
     \<and> (s \<in> set (subscriptions db) \<and> user_id s = c_user_id d \<and> status s = Some ACTIVE \<longrightarrow>
          snd (create_subscription db now d) = db \<and>
          (c_user_id d \<in> users db \<and> plans db (c_plan_id d) = Some plan \<and>
           is_active plan = Some True \<longrightarrow>
             fst (create_subscription db now d) =
               Inl (ConflictException ''User already has an active subscription'')))"
proof (intro conjI impI)
  show "at_most_one_active (run db ops)"
    using invariants_run [OF assms] by simp
next
  assume "s \<in> set (subscriptions db) \<and> user_id s = c_user_id d \<and> status s = Some ACTIVE"
  with assms(1) have rows: "active_rows db (c_user_id d) = [s]"
    by (simp add: active_rows_single)
  then show "snd (create_subscription db now d) = db"
    by (simp add: create_subscription_def get_active_by_active_rows split: option.splits)
  assume "c_user_id d \<in> users db \<and> plans db (c_plan_id d) = Some plan \<and>
           is_active plan = Some True"
  with rows show "fst (create_subscription db now d) =
               Inl (ConflictException ''User already has an active subscription'')"
    by (simp add: create_subscription_def get_active_by_active_rows)
qed

text \<open>The store with no subscription satisfies the primary key and I1.\<close>

lemma primary_key_ok_empty_store: "primary_key_ok empty_store"
  by (simp add: primary_key_ok_def empty_store_def)

lemma at_most_one_active_empty_store: "at_most_one_active empty_store"
  by (simp add: at_most_one_active_def active_rows_def empty_store_def)

text \<open>
  The scenario of the specification: user 1 subscribes, a second create is refused,
  the user cancels, and a new create succeeds. The table then holds a CANCELLED and
  an ACTIVE row of user 1.
\<close>

theorem at_most_one_active_invariant_witness:
  "at_most_one_active
     (run empty_store
        [Create 0 \<lparr> c_user_id = 1, c_plan_id = 1, c_auto_renew = Some True \<rparr>,
         Create 10 \<lparr> c_user_id = 1, c_plan_id = 2, c_auto_renew = Some True \<rparr>,
         Cancel 1,
         Create 20 \<lparr> c_user_id = 1, c_plan_id = 2, c_auto_renew = Some True \<rparr>])
   \<and> map status
       (subscriptions
          (run empty_store
             [Create 0 \<lparr> c_user_id = 1, c_plan_id = 1, c_auto_renew = Some True \<rparr>,
              Create 10 \<lparr> c_user_id = 1, c_plan_id = 2, c_auto_renew = Some True \<rparr>,
              Cancel 1,
              Create 20 \<lparr> c_user_id = 1, c_plan_id = 2, c_auto_renew = Some True \<rparr>]))
     = [Some CANCELLED, Some ACTIVE]
   \<and> create_subscription busy_store 5000
       \<lparr> c_user_id = 1, c_plan_id = 2, c_auto_renew = Some True \<rparr> =
       (Inl (ConflictException ''User already has an active subscription''), busy_store)"
proof -
  let ?d1 = "\<lparr> c_user_id = 1, c_plan_id = 1, c_auto_renew = Some True \<rparr>"
  let ?d2 = "\<lparr> c_user_id = 1, c_plan_id = 2, c_auto_renew = Some True \<rparr>"
  let ?ops = "[Create 0 ?d1, Create 10 ?d2, Cancel 1, Create 20 ?d2]"
  have 1: "at_most_one_active (run empty_store ?ops)"
    using at_most_one_active_invariant
      [OF at_most_one_active_empty_store primary_key_ok_empty_store, of ?ops]
    by simp
  have 2: "map status (subscriptions (run empty_store ?ops)) = [Some CANCELLED, Some ACTIVE]"
    by (simp add: run_def create_subscription_def cancel_subscription_def
        get_active_subscription_by_user_def commit_update_def empty_store_def
        plan_basic_def plan_annual_def Let_def add_days_def timedelta_def
        datetime_add_def representable_def datetime_min_def datetime_max_def)
  have "sub_active \<in> set (subscriptions busy_store) \<and> user_id sub_active = c_user_id ?d2 \<and>
      status sub_active = Some ACTIVE"
    and "c_user_id ?d2 \<in> users busy_store \<and> plans busy_store (c_plan_id ?d2) = Some plan_annual \<and>
      is_active plan_annual = Some True"
    by (simp_all add: busy_store_def empty_store_def sub_active_def plan_annual_def)
  with at_most_one_active_invariant
    [OF at_most_one_active_busy_store primary_key_ok_busy_store,
      where s = sub_active and d = ?d2 and plan = plan_annual and now = 5000]
  have "snd (create_subscription busy_store 5000 ?d2) = busy_store"
    and "fst (create_subscription busy_store 5000 ?d2) =
      Inl (ConflictException ''User already has an active subscription'')"
    by blast+
  then have 3: "create_subscription busy_store 5000 ?d2 =
      (Inl (ConflictException ''User already has an active subscription''), busy_store)"
    by (simp add: prod_eq_iff)
  from 1 2 3 show ?thesis by blast
qed

section \<open>Terminal subscriptions\<close>

lemma distinct_ids_neq:
  "distinct (map sub_id rows) \<Longrightarrow> a \<in> set rows \<Longrightarrow> b \<in> set rows \<Longrightarrow> a \<noteq> b \<Longrightarrow>
     sub_id a \<noteq> sub_id b"
  by (auto simp: distinct_map inj_on_def)

lemma filter_by_id:
  "distinct (map sub_id rows) \<Longrightarrow> s \<in> set rows \<Longrightarrow>
     filter (\<lambda>r. sub_id r = sub_id s) rows = [s]"
proof (induction rows)
  case Nil
  then show ?case by simp
next
  case (Cons r rows)
  show ?case
  proof (cases "r = s")
    case True
    with Cons.prems have "sub_id s \<notin> sub_id ` set rows"
      by simp
    then have "\<forall>x \<in> set rows. sub_id x \<noteq> sub_id s"
      by (metis imageI)
    then have "filter (\<lambda>r. sub_id r = sub_id s) rows = []"
      by (simp add: filter_empty_conv)
    with True show ?thesis by simp
  next
    case False
    with Cons.prems have "s \<in> set rows" and "sub_id r \<noteq> sub_id s"
      by auto
    with Cons show ?thesis by simp
  qed
qed

lemma member_commit_update:
  "s \<in> set rows \<Longrightarrow> sub_id s \<noteq> sub_id s' \<Longrightarrow> s \<in> set (commit_update s' rows)"
  by (force simp: commit_update_def)

lemma member_expire_loop:
  "s \<in> set rows \<Longrightarrow> \<forall>e \<in> set ss. sub_id e \<noteq> sub_id s \<Longrightarrow>
     s \<in> set (fst (expire_loop ss rows c))"
proof (induction ss arbitrary: rows c)
  case Nil
  then show ?case by simp
next
  case (Cons e rest)
  from Cons.prems have "s \<in> set (commit_update (e\<lparr> status := Some EXPIRED \<rparr>) rows)"
    by (intro member_commit_update) auto
  with Cons show ?case by simp
qed

lemma terminal_member_commit:
  assumes "primary_key_ok db" and "s \<in> set (subscriptions db)" and "terminal s"
    and "active_rows db uid = [a]" and "sub_id a' = sub_id a"
  shows "s \<in> set (commit_update a' (subscriptions db))"
proof -
  from active_rows_member [OF assms(4)]
  have a: "a \<in> set (subscriptions db)" and "status a = Some ACTIVE" by simp_all
  with assms(3) have "s \<noteq> a" by (auto simp: terminal_def)
  with assms(1,2) a have "sub_id s \<noteq> sub_id a"
    by (intro distinct_ids_neq) (simp_all add: primary_key_ok_def)
  with assms(2,5) show ?thesis
    by (intro member_commit_update) simp_all
qed

lemma terminal_member_step:
  assumes "primary_key_ok db" and "s \<in> set (subscriptions db)" and "terminal s"
  shows "s \<in> set (subscriptions (apply_operation db op))"
proof (cases op)
  case (Create now d)
  from create_subscription_store [of db now d] assms(2) Create show ?thesis
    by auto
next
  case (Update now uid d)
  from update_subscription_store [of db now uid d] show ?thesis
  proof
    assume "snd (update_subscription db now uid d) = db"
    with assms Update show ?thesis by simp
  next
    assume "\<exists>s s'. active_rows db uid = [s] \<and> sub_id s' = sub_id s \<and> user_id s' = user_id s \<and>
        status s' = (case upd_status d of Unset \<Rightarrow> Some ACTIVE | Given v \<Rightarrow> v) \<and>
        snd (update_subscription db now uid d) =
          db\<lparr> subscriptions := commit_update s' (subscriptions db) \<rparr>"
    then obtain a a' where "active_rows db uid = [a]" and "sub_id a' = sub_id a"
      and "snd (update_subscription db now uid d) =
          db\<lparr> subscriptions := commit_update a' (subscriptions db) \<rparr>"
      by blast
    with terminal_member_commit [OF assms, of uid a a'] Update show ?thesis
      by simp
  qed
next
  case (Cancel uid)
  from cancel_subscription_store [of db uid] show ?thesis
  proof
    assume "snd (cancel_subscription db uid) = db"
    with assms Cancel show ?thesis by simp
  next
    assume "\<exists>s s'. active_rows db uid = [s] \<and> sub_id s' = sub_id s \<and> user_id s' = user_id s \<and>
        status s' = Some CANCELLED \<and>
        snd (cancel_subscription db uid) =
          db\<lparr> subscriptions := commit_update s' (subscriptions db) \<rparr>"
    then obtain a a' where "active_rows db uid = [a]" and "sub_id a' = sub_id a"
      and "snd (cancel_subscription db uid) =
          db\<lparr> subscriptions := commit_update a' (subscriptions db) \<rparr>"
      by blast
    with terminal_member_commit [OF assms, of uid a a'] Cancel show ?thesis
      by simp
  qed
next
  case (Expire t)
  have "sub_id e \<noteq> sub_id s" if "e \<in> set (select_expired db t)" for e
  proof -
    from that have e: "e \<in> set (subscriptions db)" and "status e = Some ACTIVE"
      by (simp_all add: select_expired_def)
    with assms(3) have "e \<noteq> s" by (auto simp: terminal_def)
    with assms(1,2) e show ?thesis
      by (intro distinct_ids_neq) (simp_all add: primary_key_ok_def)
  qed
  with assms(2) Expire show ?thesis
    by (simp add: expire_subscriptions_store member_expire_loop)
qed

lemma terminal_member_run:
  "primary_key_ok db \<Longrightarrow> s \<in> set (subscriptions db) \<Longrightarrow> terminal s \<Longrightarrow>
     s \<in> set (subscriptions (run db ops))"
  unfolding run_def
  by (induction ops arbitrary: db) (simp_all add: terminal_member_step primary_key_ok_step)

text \<open>
  C6. Let \<open>s\<close> be a row with status CANCELLED or EXPIRED, in a store that satisfies the
  primary key. After every sequence of operations, looking the subscription up by its
  id gives \<open>s\<close> itself: no column of it has changed. A cancel or an update for the user
  of \<open>s\<close>, when that user has no ACTIVE row, raises \<open>NotFoundException\<close> and leaves the
  whole store as it is.
\<close>

theorem terminal_subscription_never_mutated:
  assumes "primary_key_ok db" and "s \<in> set (subscriptions db)" and "terminal s"
  shows "get_subscription_by_id (run db ops) (sub_id s) = Inr (Some s)
     \<and> (active_rows db (user_id s) = [] \<longrightarrow>
          cancel_subscription db (user_id s) =
            (Inl (NotFoundException ''No active subscription found for user''), db) \<and>
          update_subscription db now (user_id s) d =
            (Inl (NotFoundException ''No active subscription found for user''), db))"
proof (intro conjI impI)
  have "distinct (map sub_id (subscriptions (run db ops)))"
    using primary_key_ok_run [OF assms(1), of ops] by (simp add: primary_key_ok_def)
  moreover have "s \<in> set (subscriptions (run db ops))"
    using assms by (rule terminal_member_run)
  ultimately show "get_subscription_by_id (run db ops) (sub_id s) = Inr (Some s)"
    by (simp add: get_subscription_by_id_def filter_by_id)
next
  assume "active_rows db (user_id s) = []"
  then have none: "get_active_subscription_by_user db (user_id s) = Inr None"
    by (simp add: get_active_by_active_rows)
  then show "cancel_subscription db (user_id s) =
      (Inl (NotFoundException ''No active subscription found for user''), db)"
    by (simp add: cancel_subscription_def)
  from none show "update_subscription db now (user_id s) d =
      (Inl (NotFoundException ''No active subscription found for user''), db)"
    by (simp add: update_subscription_def)
qed

text \<open>
  The CANCELLED subscription of user 2 survives a cancel, an update that asks for
  status ACTIVE, a sweep, a new subscription of the same user and its cancellation.
\<close>

theorem terminal_subscription_never_mutated_witness:
  "get_subscription_by_id
     (run busy_store
        [Cancel 2,
         Update 10 2 \<lparr> upd_plan_id = Given (Some 2), upd_auto_renew = Given (Some True),
                       upd_status = Given (Some ACTIVE) \<rparr>,
         Expire 9000000000000,
         Create 20 \<lparr> c_user_id = 2, c_plan_id = 2, c_auto_renew = Some True \<rparr>,
         Cancel 2])
     2 = Inr (Some sub_cancelled)
   \<and> cancel_subscription busy_store 2 =
       (Inl (NotFoundException ''No active subscription found for user''), busy_store)
   \<and> update_subscription busy_store 10 2
       \<lparr> upd_plan_id = Given (Some 2), upd_auto_renew = Given (Some True),
         upd_status = Given (Some ACTIVE) \<rparr> =
       (Inl (NotFoundException ''No active subscription found for user''), busy_store)"
proof -
  have "sub_cancelled \<in> set (subscriptions busy_store)" and "terminal sub_cancelled"
    and "active_rows busy_store (user_id sub_cancelled) = []"
    and "sub_id sub_cancelled = 2" and "user_id sub_cancelled = 2"
    by (simp_all add: busy_store_def sub_cancelled_def sub_active_def terminal_def
        active_rows_def)
  with terminal_subscription_never_mutated
    [OF primary_key_ok_busy_store, of sub_cancelled _ 10
      "\<lparr> upd_plan_id = Given (Some 2), upd_auto_renew = Given (Some True),
         upd_status = Given (Some ACTIVE) \<rparr>"]
  show ?thesis by simp
qed

section \<open>The status INACTIVE\<close>

lemma has_inactive_commit_update:
  "\<not> has_inactive db \<Longrightarrow> status s' \<noteq> Some INACTIVE \<Longrightarrow>
     \<not> has_inactive (db\<lparr> subscriptions := commit_update s' (subscriptions db) \<rparr>)"
  by (auto simp: has_inactive_def commit_update_def split: if_splits)

lemma no_inactive_expire_loop:
  "Some INACTIVE \<notin> status ` set rows \<Longrightarrow>
     Some INACTIVE \<notin> status ` set (fst (expire_loop ss rows c))"
proof (induction ss arbitrary: rows c)
  case Nil
  then show ?case by simp
next
  case (Cons e rest)
  from Cons.prems
  have "Some INACTIVE \<notin> status ` set (commit_update (e\<lparr> status := Some EXPIRED \<rparr>) rows)"
    by (auto simp: commit_update_def split: if_splits)
  with Cons.IH show ?case by simp
qed

lemma no_inactive_step:
  assumes "\<not> has_inactive db" and "\<not> requests_inactive op"
  shows "\<not> has_inactive (apply_operation db op)"
proof (cases op)
  case (Create now d)
  from create_subscription_store [of db now d] assms(1) Create show ?thesis
    by (auto simp: has_inactive_def)
next
  case (Update now uid d)
  from update_subscription_store [of db now uid d] show ?thesis
  proof
    assume "snd (update_subscription db now uid d) = db"
    with assms Update show ?thesis by simp
  next
    assume "\<exists>s s'. active_rows db uid = [s] \<and> sub_id s' = sub_id s \<and> user_id s' = user_id s \<and>
        status s' = (case upd_status d of Unset \<Rightarrow> Some ACTIVE | Given v \<Rightarrow> v) \<and>
        snd (update_subscription db now uid d) =
          db\<lparr> subscriptions := commit_update s' (subscriptions db) \<rparr>"
    then obtain s' where st: "status s' = (case upd_status d of Unset \<Rightarrow> Some ACTIVE | Given v \<Rightarrow> v)"
      and db': "snd (update_subscription db now uid d) =
          db\<lparr> subscriptions := commit_update s' (subscriptions db) \<rparr>"
      by blast
    from assms(2) Update have "upd_status d \<noteq> Given (Some INACTIVE)" by simp
    with st have "status s' \<noteq> Some INACTIVE"
      by (cases "upd_status d") auto
    with assms(1) db' Update show ?thesis
      by (simp add: has_inactive_commit_update)
  qed
next
  case (Cancel uid)
  from cancel_subscription_store [of db uid] show ?thesis
  proof
    assume "snd (cancel_subscription db uid) = db"
    with assms Cancel show ?thesis by simp
  next
    assume "\<exists>s s'. active_rows db uid = [s] \<and> sub_id s' = sub_id s \<and> user_id s' = user_id s \<and>
        status s' = Some CANCELLED \<and>
        snd (cancel_subscription db uid) =
          db\<lparr> subscriptions := commit_update s' (subscriptions db) \<rparr>"
    then obtain s' where "status s' = Some CANCELLED"
      and "snd (cancel_subscription db uid) =
          db\<lparr> subscriptions := commit_update s' (subscriptions db) \<rparr>"
      by blast
    with assms(1) Cancel show ?thesis
      by (simp add: has_inactive_commit_update)
  qed
next
  case (Expire t)
  with assms(1) show ?thesis
    by (simp add: expire_subscriptions_store has_inactive_def no_inactive_expire_loop)
qed

text \<open>
  C9, as amended. From a store with no INACTIVE row, a sequence of operations in which
  no update carries \<^verbatim>\<open>status = INACTIVE\<close> in its payload leads to a store with no
  INACTIVE row: \<open>create_subscription\<close>, \<open>cancel_subscription\<close>, \<open>expire_subscriptions\<close>
  and every other update never produce the status.
\<close>

theorem inactive_only_on_request:
  assumes "\<not> has_inactive db" and "list_all (\<lambda>op. \<not> requests_inactive op) ops"
  shows "\<not> has_inactive (run db ops)"
  using assms unfolding run_def
  by (induction ops arbitrary: db) (simp_all add: no_inactive_step)

text \<open>
  User 1 subscribes, switches to the other 30-day plan with an update that also sets
  the status to EXPIRED, subscribes again, and the table is swept: no row is INACTIVE.
\<close>

theorem inactive_only_on_request_witness:
  "\<not> has_inactive
      (run empty_store
         [Create 0 \<lparr> c_user_id = 1, c_plan_id = 1, c_auto_renew = Some True \<rparr>,
          Update 10 1 \<lparr> upd_plan_id = Given (Some 5), upd_auto_renew = Unset,
                        upd_status = Given (Some EXPIRED) \<rparr>,
          Create 20 \<lparr> c_user_id = 1, c_plan_id = 4, c_auto_renew = Some True \<rparr>,
          Cancel 1,
          Expire 30])"
proof -
  have "\<not> has_inactive empty_store"
    by (simp add: has_inactive_def empty_store_def)
  from inactive_only_on_request [OF this,
      of "[Create 0 \<lparr> c_user_id = 1, c_plan_id = 1, c_auto_renew = Some True \<rparr>,
           Update 10 1 \<lparr> upd_plan_id = Given (Some 5), upd_auto_renew = Unset,
                         upd_status = Given (Some EXPIRED) \<rparr>,
           Create 20 \<lparr> c_user_id = 1, c_plan_id = 4, c_auto_renew = Some True \<rparr>,
           Cancel 1,
           Expire 30]"]
  show ?thesis by simp
qed

text \<open>
  C9, as stated, fails: the store with no subscription has no INACTIVE row, and after
  user 1 subscribes and then sends an update with \<^verbatim>\<open>status = INACTIVE\<close> the only row of
  the table is INACTIVE.
\<close>

theorem inactive_reachable_counterexample:
  "\<not> has_inactive empty_store
   \<and> map status
       (subscriptions
          (run empty_store
             [Create 0 \<lparr> c_user_id = 1, c_plan_id = 1, c_auto_renew = Some True \<rparr>,
              Update 10 1 \<lparr> upd_plan_id = Unset, upd_auto_renew = Unset,
                            upd_status = Given (Some INACTIVE) \<rparr>]))
     = [Some INACTIVE]
   \<and> has_inactive
       (run empty_store
          [Create 0 \<lparr> c_user_id = 1, c_plan_id = 1, c_auto_renew = Some True \<rparr>,
           Update 10 1 \<lparr> upd_plan_id = Unset, upd_auto_renew = Unset,
                         upd_status = Given (Some INACTIVE) \<rparr>])"
  by (simp add: has_inactive_def run_def create_subscription_def update_subscription_def
      get_active_subscription_by_user_def commit_update_def apply_updates_def
      empty_store_def plan_basic_def Let_def add_days_def timedelta_def
      datetime_add_def representable_def datetime_min_def datetime_max_def)

end
